theory Spec2Isabelle
  imports Main "HOL-Library.Word"
begin

unbundle bit_operations_syntax

section \<open>Task data dependencies: the dependency hash\<close>

text \<open>
  The dependency hash of the tasking runtime has \<open>DART_DEPHASH_SIZE\<close> slots, each heading a
  singly linked list of hash elements.
\<close>

definition DART_DEPHASH_SIZE :: nat where
  "DART_DEPHASH_SIZE = 1024"

text \<open>
  A global pointer. The code reads the unit id, the segment id and the union
  \<open>addr_or_offs\<close>, whose members \<open>addr\<close> and \<open>offset\<close> share the same 64 bits.
\<close>

record dart_gptr =
  unitid :: "32 word"
  segid :: "16 word"
  addr_or_offs :: "64 word"

definition hash_gptr :: "dart_gptr \<Rightarrow> nat" where
  "hash_gptr gptr =
     (let offset = addr_or_offs gptr;
          offset = drop_bit 3 offset
      in unat ((offset XOR drop_bit 7 offset XOR drop_bit 11 offset XOR drop_bit 17 offset)
                 mod (word_of_nat DART_DEPHASH_SIZE)))"

subsection \<open>Data\<close>

datatype dart_ret = DART_OK | DART_ERR_INVAL | DART_ERR_OTHER

text \<open>
  The enumeration of dependency types is declared in a header outside the sources at hand; the
  four kinds are the ones the code names. \<open>memset\<close> to zero yields the first enumerator.
\<close>

datatype dart_task_deptype = DART_DEP_IN | DART_DEP_OUT | DART_DEP_INOUT | DART_DEP_DIRECT

record dart_task_dep =
  dep_type :: dart_task_deptype
  gptr :: dart_gptr

record dart_phase_dep =
  dep :: dart_task_dep
  dep_phase :: "64 word"

definition IS_OUT_DEP :: "dart_task_dep \<Rightarrow> bool" where
  "IS_OUT_DEP taskdep \<longleftrightarrow> dep_type taskdep = DART_DEP_OUT \<or> dep_type taskdep = DART_DEP_INOUT"

definition DART_GPTR_NULL :: dart_gptr where
  "DART_GPTR_NULL = \<lparr>unitid = 0, segid = 0, addr_or_offs = 0\<rparr>"

text \<open>
  Pointers to hash elements are \<open>nat option\<close>, \<open>None\<close> being \<open>NULL\<close>. The union
  \<open>taskref\<close> overlays a local task pointer and an opaque remote handle; both are held as one
  number, \<open>0\<close> being \<open>NULL\<close>.
\<close>

type_synonym elem_ptr = "nat option"
type_synonym taskref = nat

record dart_dephash_elem =
  "next" :: elem_ptr
  task :: taskref
  taskdep :: dart_task_dep
  phase :: "64 word"

definition zero_elem :: dart_dephash_elem where
  "zero_elem = \<lparr>next = None, task = 0,
                 taskdep = \<lparr>dep_type = DART_DEP_IN, gptr = DART_GPTR_NULL\<rparr>, phase = 0\<rparr>"

datatype dart_task_state =
  DART_TASK_CREATED | DART_TASK_READY | DART_TASK_RUNNING | DART_TASK_FINISHED | DART_TASK_CANCELLED

text \<open>
  The fields of a task that the dependency code touches. The successor list belongs to the
  task-list module; \<open>dart_tasking_tasklist_prepend\<close> puts a task in front of it.
\<close>

record dart_task =
  state :: dart_task_state
  task_phase :: "64 word"
  unresolved_deps :: "32 word"
  successor :: "taskref list"
  remote_successor :: elem_ptr

text \<open>Calls that leave the module: the remote transport and the ready queue of a thread.\<close>

datatype ext_call =
  Remote_datadep dart_task_dep taskref
| Remote_direct_taskdep "32 word" taskref taskref
| Remote_release "32 word" taskref dart_task_dep
| Taskqueue_push nat taskref

text \<open>
  The module's globals, the store of hash elements (\<open>calloc\<close> hands out the address
  \<open>brk\<close>), the tasks it is given pointers to, the calls it has made and the return
  value of the transport for a direct dependency request. Locking is left out: the model is
  sequential.
\<close>

record datadeps =
  elems :: "nat \<Rightarrow> dart_dephash_elem"
  brk :: nat
  local_deps :: "nat \<Rightarrow> elem_ptr"
  freelist_head :: elem_ptr
  unhandled_remote_deps :: elem_ptr
  tasks :: "taskref \<Rightarrow> dart_task"
  calls :: "ext_call list"
  transport :: "ext_call \<Rightarrow> dart_ret"

datatype fault = Assert_task_not_null | Assert_elem_unused | Assert_task_not_present

subsection \<open>Allocation and recycling of hash elements\<close>

definition calloc_elem :: "datadeps \<Rightarrow> nat \<times> datadeps" where
  "calloc_elem s = (brk s, s\<lparr>elems := (elems s)(brk s := zero_elem), brk := Suc (brk s)\<rparr>)"

text \<open>
  Modelled from the spec: the macros \<open>DART_STACK_PUSH\<close> and \<open>DART_STACK_POP\<close> are not
  in the sources at hand. The lists are intrusive singly linked stacks: push sets the element's
  \<open>next\<close> to the head and makes the element the head; pop takes the head, advances the head
  to its \<open>next\<close> and clears the \<open>next\<close> of the element taken.
\<close>

definition set_next :: "nat \<Rightarrow> elem_ptr \<Rightarrow> datadeps \<Rightarrow> datadeps" where
  "set_next e p s = s\<lparr>elems := (elems s)(e := (elems s e)\<lparr>next := p\<rparr>)\<rparr>"

definition freelist_pop :: "datadeps \<Rightarrow> elem_ptr \<times> datadeps" where
  "freelist_pop s =
     (case freelist_head s of
        None \<Rightarrow> (None, s)
      | Some e \<Rightarrow> (Some e, set_next e None (s\<lparr>freelist_head := next (elems s e)\<rparr>)))"

definition dephash_allocate_elem ::
    "dart_task_dep \<Rightarrow> taskref \<Rightarrow> datadeps \<Rightarrow> fault + nat \<times> datadeps" where
  "dephash_allocate_elem d tr s =
     (let (elem, s1) = freelist_pop s;
          (e, s2) = (case elem of None \<Rightarrow> calloc_elem s1 | Some e \<Rightarrow> (e, s1))
      in if tr = 0 then Inl Assert_task_not_null
         else if task (elems s2 e) \<noteq> 0 then Inl Assert_elem_unused
         else Inr (e, s2\<lparr>elems := (elems s2)(e := (elems s2 e)\<lparr>task := tr, taskdep := d\<rparr>)\<rparr>))"

definition dephash_recycle_elem :: "elem_ptr \<Rightarrow> datadeps \<Rightarrow> datadeps" where
  "dephash_recycle_elem elem s =
     (case elem of
        None \<Rightarrow> s
      | Some e \<Rightarrow>
          s\<lparr>elems := (elems s)(e := zero_elem\<lparr>next := freelist_head s\<rparr>),
            freelist_head := Some e\<rparr>)"

definition dephash_add_local :: "dart_task_dep \<Rightarrow> taskref \<Rightarrow> datadeps \<Rightarrow> fault + datadeps" where
  "dephash_add_local d tr s =
     (case dephash_allocate_elem d tr s of
        Inl f \<Rightarrow> Inl f
      | Inr (e, s1) \<Rightarrow>
          let s2 = s1\<lparr>elems := (elems s1)(e := (elems s1 e)\<lparr>phase := task_phase (tasks s1 tr)\<rparr>)\<rparr>;
              slot = hash_gptr (gptr d);
              s3 = set_next e (local_deps s2 slot) s2
          in Inr (s3\<lparr>local_deps := (local_deps s3)(slot := Some e)\<rparr>))"

subsection \<open>Unhandled remote dependencies\<close>

definition push_remote_successor :: "taskref \<Rightarrow> nat \<Rightarrow> datadeps \<Rightarrow> datadeps" where
  "push_remote_successor t e s =
     (let s1 = set_next e (remote_successor (tasks s t)) s
      in s1\<lparr>tasks := (tasks s1)(t := (tasks s1 t)\<lparr>remote_successor := Some e\<rparr>)\<rparr>)"

definition inc_unresolved_deps :: "taskref \<Rightarrow> datadeps \<Rightarrow> datadeps" where
  "inc_unresolved_deps t s =
     s\<lparr>tasks := (tasks s)(t := (tasks s t)\<lparr>unresolved_deps := unresolved_deps (tasks s t) + 1\<rparr>)\<rparr>"

definition ext_call :: "ext_call \<Rightarrow> datadeps \<Rightarrow> datadeps" where
  "ext_call c s = s\<lparr>calls := calls s @ [c]\<rparr>"

text \<open>
  The loop of \<open>check_unresolved_remote_deps\<close>, with its variables \<open>elem\<close> and
  \<open>prev\<close>. As in the code, \<open>prev\<close> advances only past an element whose address differs.
\<close>

partial_function (option) check_unresolved_loop ::
    "taskref \<Rightarrow> dart_task_dep \<Rightarrow> elem_ptr \<Rightarrow> elem_ptr \<Rightarrow> datadeps \<Rightarrow> datadeps option" where
  "check_unresolved_loop t d elem prev s =
     (case elem of
        None \<Rightarrow> Some s
      | Some e \<Rightarrow>
          let nxt = next (elems s e) in
          if addr_or_offs (gptr (taskdep (elems s e))) = addr_or_offs (gptr d) then
            if phase (elems s e) = task_phase (tasks s t) then
              let s1 = (case prev of
                          None \<Rightarrow> s\<lparr>unhandled_remote_deps := next (elems s e)\<rparr>
                        | Some p \<Rightarrow> set_next p (next (elems s e)) s);
                  s2 = push_remote_successor t e s1
              in check_unresolved_loop t d nxt prev s2
            else if phase (elems s e) < task_phase (tasks s t) then
              let s1 = ext_call (Remote_direct_taskdep (unitid (gptr (taskdep (elems s e)))) t
                                   (task (elems s e))) s;
                  s2 = inc_unresolved_deps t s1
              in check_unresolved_loop t d nxt prev s2
            else check_unresolved_loop t d nxt prev s
          else check_unresolved_loop t d nxt (Some e) s)"

declare check_unresolved_loop.simps [code]

definition check_unresolved_remote_deps ::
    "taskref \<Rightarrow> dart_task_dep \<Rightarrow> datadeps \<Rightarrow> (dart_ret \<times> datadeps) option" where
  "check_unresolved_remote_deps t d s =
     (if IS_OUT_DEP d \<and> unhandled_remote_deps s \<noteq> None
      then map_option (Pair DART_OK) (check_unresolved_loop t d (unhandled_remote_deps s) None s)
      else Some (DART_OK, s))"

partial_function (option) release_unhandled_loop :: "elem_ptr \<Rightarrow> datadeps \<Rightarrow> datadeps option" where
  "release_unhandled_loop elem s =
     (case elem of
        None \<Rightarrow> Some s
      | Some e \<Rightarrow>
          let nxt = next (elems s e);
              s1 = ext_call (Remote_release (unitid (gptr (taskdep (elems s e)))) (task (elems s e))
                               (taskdep (elems s e))) s;
              s2 = dephash_recycle_elem (Some e) s1
          in release_unhandled_loop nxt s2)"

declare release_unhandled_loop.simps [code]

definition dart_tasking_datadeps_release_unhandled_remote ::
    "datadeps \<Rightarrow> (dart_ret \<times> datadeps) option" where
  "dart_tasking_datadeps_release_unhandled_remote s =
     (case release_unhandled_loop (unhandled_remote_deps s) s of
        None \<Rightarrow> None
      | Some s1 \<Rightarrow> Some (DART_OK, s1\<lparr>unhandled_remote_deps := None\<rparr>))"

definition dart_tasking_datadeps_end_phase :: "64 word \<Rightarrow> datadeps \<Rightarrow> dart_ret \<times> datadeps" where
  "dart_tasking_datadeps_end_phase p s = (DART_OK, s)"

subsection \<open>Registering a local task\<close>

definition tasklist_prepend :: "taskref \<Rightarrow> taskref \<Rightarrow> datadeps \<Rightarrow> datadeps" where
  "tasklist_prepend owner t s =
     s\<lparr>tasks := (tasks s)(owner := (tasks s owner)\<lparr>successor := t # successor (tasks s owner)\<rparr>)\<rparr>"

text \<open>The scan of one slot for the tasks that the new task \<open>t\<close> has to wait for.\<close>

partial_function (option) handle_task_scan ::
    "taskref \<Rightarrow> dart_task_dep \<Rightarrow> elem_ptr \<Rightarrow> datadeps \<Rightarrow> (fault + datadeps) option" where
  "handle_task_scan t d elem s =
     (case elem of
        None \<Rightarrow> Some (Inr s)
      | Some e \<Rightarrow>
          let el = elems s e in
          if task el = t then Some (Inl Assert_task_not_present)
          else if addr_or_offs (gptr (taskdep el)) = addr_or_offs (gptr d) then
            let s1 = (if state (tasks s (task el)) \<noteq> DART_TASK_FINISHED \<and>
                         (IS_OUT_DEP d \<or> (dep_type d = DART_DEP_IN \<and> IS_OUT_DEP (taskdep el)))
                      then tasklist_prepend (task el) t (inc_unresolved_deps t s)
                      else s)
            in if IS_OUT_DEP (taskdep el) then Some (Inr s1)
               else handle_task_scan t d (next el) s1
          else handle_task_scan t d (next el) s)"

declare handle_task_scan.simps [code]

text \<open>
  The loop over the dependencies of the task. The unit's own id (\<open>dart_myid\<close>) and the
  resolution of a global pointer to an absolute offset (\<open>dart_gptr_getoffset\<close>) come from
  outside the module and are parameters.
\<close>

fun handle_task_deps ::
    "32 word \<Rightarrow> (dart_gptr \<Rightarrow> 64 word) \<Rightarrow> taskref \<Rightarrow> dart_task_dep list \<Rightarrow> datadeps
       \<Rightarrow> (fault + datadeps) option" where
  "handle_task_deps myid getoffset t [] s = Some (Inr s)"
| "handle_task_deps myid getoffset t (d0 # deps) s =
     (let d = d0\<lparr>gptr := (gptr d0)\<lparr>addr_or_offs := getoffset (gptr d0)\<rparr>\<rparr>;
          slot = hash_gptr (gptr d)
      in if unitid (gptr d) \<noteq> myid
         then handle_task_deps myid getoffset t deps (ext_call (Remote_datadep d t) s)
         else (case handle_task_scan t d (local_deps s slot) s of
                 None \<Rightarrow> None
               | Some (Inl f) \<Rightarrow> Some (Inl f)
               | Some (Inr s1) \<Rightarrow>
                   (case dephash_add_local d t s1 of
                      Inl f \<Rightarrow> Some (Inl f)
                    | Inr s2 \<Rightarrow>
                        (case check_unresolved_remote_deps t d s2 of
                           None \<Rightarrow> None
                         | Some (r, s3) \<Rightarrow> handle_task_deps myid getoffset t deps s3))))"

definition dart_tasking_datadeps_handle_task ::
    "32 word \<Rightarrow> (dart_gptr \<Rightarrow> 64 word) \<Rightarrow> taskref \<Rightarrow> dart_task_dep list \<Rightarrow> datadeps
       \<Rightarrow> (fault + dart_ret \<times> datadeps) option" where
  "dart_tasking_datadeps_handle_task myid getoffset t deps s =
     map_option (map_sum id (Pair DART_OK)) (handle_task_deps myid getoffset t deps s)"

subsection \<open>Requests from remote units\<close>

partial_function (option) handle_remote_task_loop ::
    "dart_phase_dep \<Rightarrow> taskref \<Rightarrow> 32 word \<Rightarrow> elem_ptr \<Rightarrow> datadeps
       \<Rightarrow> (fault + dart_ret \<times> datadeps) option" where
  "handle_remote_task_loop pd remote_task origin elem s =
     (case elem of
        Some e \<Rightarrow>
          let el = elems s e in
          if addr_or_offs (gptr (taskdep el)) = addr_or_offs (gptr (dep pd)) \<and> IS_OUT_DEP (taskdep el)
          then
            let t = task el in
            if state (tasks s t) \<noteq> DART_TASK_FINISHED then
              (case dephash_allocate_elem (dep pd) remote_task s of
                 Inl f \<Rightarrow> Some (Inl f)
               | Inr (rs, s1) \<Rightarrow>
                   let s2 = s1\<lparr>elems := (elems s1)(rs := (elems s1 rs)
                               \<lparr>taskdep := (taskdep (elems s1 rs))
                                   \<lparr>gptr := (gptr (taskdep (elems s1 rs)))\<lparr>unitid := origin\<rparr>\<rparr>,
                                phase := dep_phase pd\<rparr>)\<rparr>
                   in Some (Inr (DART_OK, push_remote_successor t rs s2)))
            else Some (Inr (DART_OK, ext_call (Remote_release origin remote_task (dep pd)) s))
          else handle_remote_task_loop pd remote_task origin (next el) s
      | None \<Rightarrow>
          (case dephash_allocate_elem (dep pd) remote_task s of
             Inl f \<Rightarrow> Some (Inl f)
           | Inr (rs, s1) \<Rightarrow>
               let s2 = s1\<lparr>elems := (elems s1)(rs := (elems s1 rs)
                           \<lparr>taskdep := (taskdep (elems s1 rs))
                               \<lparr>gptr := (gptr (taskdep (elems s1 rs)))\<lparr>unitid := origin\<rparr>\<rparr>,
                            phase := dep_phase pd\<rparr>)\<rparr>;
                   s3 = set_next rs (unhandled_remote_deps s2) s2
               in Some (Inr (DART_OK, s3\<lparr>unhandled_remote_deps := Some rs\<rparr>))))"

declare handle_remote_task_loop.simps [code]

definition dart_tasking_datadeps_handle_remote_task ::
    "dart_phase_dep \<Rightarrow> taskref \<Rightarrow> 32 word \<Rightarrow> datadeps \<Rightarrow> (fault + dart_ret \<times> datadeps) option" where
  "dart_tasking_datadeps_handle_remote_task pd remote_task origin s =
     (if dep_type (dep pd) \<noteq> DART_DEP_IN then Some (Inr (DART_ERR_INVAL, s))
      else handle_remote_task_loop pd remote_task origin
             (local_deps s (hash_gptr (gptr (dep pd)))) s)"


subsection \<open>Releasing a finished task\<close>









subsection \<open>Initialisation, reset and shutdown\<close>










subsection \<open>Linked lists in the store\<close>

text \<open>
  \<open>chain h p as\<close>: following \<open>next\<close> from the pointer \<open>p\<close> visits exactly the
  elements \<open>as\<close> and then reaches \<open>NULL\<close>.
\<close>

primrec chain :: "(nat \<Rightarrow> dart_dephash_elem) \<Rightarrow> elem_ptr \<Rightarrow> nat list \<Rightarrow> bool" where
  "chain h p [] \<longleftrightarrow> p = None"
| "chain h p (a # as) \<longleftrightarrow> p = Some a \<and> chain h (next (h a)) as"

text \<open>The release message that the code sends for the element at \<open>e\<close>.\<close>

definition release_of :: "(nat \<Rightarrow> dart_dephash_elem) \<Rightarrow> nat \<Rightarrow> ext_call" where
  "release_of h e = Remote_release (unitid (gptr (taskdep (h e)))) (task (h e)) (taskdep (h e))"

text \<open>
  The state of the module before any call: the statics are zero, no element has been
  allocated. The tasks and the transport are given.
\<close>

definition datadeps_static :: "(taskref \<Rightarrow> dart_task) \<Rightarrow> (ext_call \<Rightarrow> dart_ret) \<Rightarrow> datadeps" where
  "datadeps_static ts tr =
     \<lparr>elems = (\<lambda>_. zero_elem), brk = 0, local_deps = (\<lambda>_. None), freelist_head = None,
      unhandled_remote_deps = None, tasks = ts, calls = [], transport = tr\<rparr>"

definition new_task :: "64 word \<Rightarrow> dart_task" where
  "new_task p = \<lparr>state = DART_TASK_CREATED, task_phase = p, unresolved_deps = 0,
                  successor = [], remote_successor = None\<rparr>"

text \<open>
  States reached through the interface: the state after a remote request, and two states in
  which requests from unit 1 for the address \<open>0x2000\<close> wait in the list of unhandled remote
  dependencies.
\<close>

definition after_remote_task :: "dart_phase_dep \<Rightarrow> taskref \<Rightarrow> 32 word \<Rightarrow> datadeps \<Rightarrow> datadeps" where
  "after_remote_task pd remote_task origin s =
     (case dart_tasking_datadeps_handle_remote_task pd remote_task origin s of
        Some (Inr (r, s')) \<Rightarrow> s'
      | _ \<Rightarrow> s)"

definition remote_in :: "64 word \<Rightarrow> 64 word \<Rightarrow> dart_phase_dep" where
  "remote_in a p =
     \<lparr>dep = \<lparr>dep_type = DART_DEP_IN, gptr = \<lparr>unitid = 0, segid = 0, addr_or_offs = a\<rparr>\<rparr>,
      dep_phase = p\<rparr>"

definition one_unhandled :: datadeps where
  "one_unhandled =
     after_remote_task (remote_in 0x2000 2) 7 1 (datadeps_static (\<lambda>_. new_task 0) (\<lambda>_. DART_OK))"

definition two_unhandled :: datadeps where
  "two_unhandled =
     after_remote_task (remote_in 0x2000 1) 8 1
       (after_remote_task (remote_in 0x2000 2) 7 1
          (datadeps_static (\<lambda>_. new_task 2) (\<lambda>_. DART_OK)))"

section \<open>Locality: the tree of domains\<close>

subsection \<open>Data\<close>

datatype dart_locality_scope =
  DART_LOCALITY_SCOPE_UNDEFINED
| DART_LOCALITY_SCOPE_GLOBAL
| DART_LOCALITY_SCOPE_NODE
| DART_LOCALITY_SCOPE_MODULE
| DART_LOCALITY_SCOPE_NUMA
| DART_LOCALITY_SCOPE_CORE

record dart_hwinfo =
  numa_id :: int
  cpu_id :: int
  num_cores :: int
  num_modules :: int
  num_numa :: int
  min_threads :: int
  max_threads :: int
  min_cpu_mhz :: int
  max_cpu_mhz :: int

text \<open>
  A domain: its scalar fields and its array of sub-domains (\<open>None\<close> is \<open>NULL\<close>). The
  sub-domains are stored in the array itself, so the tree is a value; the \<open>parent\<close> pointer
  is the position in the tree and is not stored. Counts are C \<open>int\<close>s, modelled as integers.
\<close>

record domain_fields =
  domain_tag :: string
  host :: string
  scope :: dart_locality_scope
  level :: int
  relative_index :: int
  node_id :: int
  hwinfo :: dart_hwinfo
  num_nodes :: int
  num_units :: int
  unit_ids :: "int list"
  num_domains :: int

datatype dart_domain_locality =
  Domain_locality (scalars: domain_fields) (domains: "dart_domain_locality list option")

text \<open>
  What the builder consumes from the host topology and the unit locality map, both outside the
  sources at hand: the number of nodes, the host names by index, the units of a node and of a
  module (\<open>None\<close> when the call does not return \<open>DART_OK\<close>), and the NUMA id of a unit
  (\<open>None\<close> when \<open>dart__base__unit_locality__at\<close> fails).
\<close>

record dart_host_topology =
  topology_num_nodes :: int
  host_names :: "int \<Rightarrow> string"
  node_units :: "string \<Rightarrow> int list option"
  module_units :: "string \<Rightarrow> int list option"
  unit_numa_id :: "int \<Rightarrow> int option"

datatype loc_fault = Assert_returns | Unset_output | Out_of_bounds | Division_by_zero

fun collect :: "('e + 'a) list \<Rightarrow> 'e + 'a list" where
  "collect [] = Inr []"
| "collect (x # xs) =
     (case x of
        Inl e \<Rightarrow> Inl e
      | Inr v \<Rightarrow> (case collect xs of Inl e \<Rightarrow> Inl e | Inr vs \<Rightarrow> Inr (v # vs)))"

text \<open>C division truncates towards zero.\<close>

definition c_div :: "int \<Rightarrow> int \<Rightarrow> int" where
  "c_div a b = (if (a < 0) = (b < 0) then \<bar>a\<bar> div \<bar>b\<bar> else - (\<bar>a\<bar> div \<bar>b\<bar>))"

subsection \<open>Decimal text\<close>

definition digit_char :: "nat \<Rightarrow> char" where
  "digit_char n = char_of (48 + n)"

fun dec :: "nat \<Rightarrow> string" where
  "dec n = (if n < 10 then [digit_char n] else dec (n div 10) @ [digit_char (n mod 10)])"

declare dec.simps [simp del]

text \<open>\<open>sprintf\<close> with the format \<open>%d\<close>.\<close>

definition sprintf_d :: "int \<Rightarrow> string" where
  "sprintf_d i = (if i < 0 then CHR ''-'' # dec (nat (- i)) else dec (nat i))"

definition isspace :: "char \<Rightarrow> bool" where
  "isspace c \<longleftrightarrow> c \<in> {CHR 0x20, CHR 0x09, CHR 0x0A, CHR 0x0B, CHR 0x0C, CHR 0x0D}"

definition isdigit :: "char \<Rightarrow> bool" where
  "isdigit c \<longleftrightarrow> 48 \<le> (of_char c :: nat) \<and> (of_char c :: nat) \<le> 57"

definition digit_val :: "char \<Rightarrow> int" where
  "digit_val c = int (of_char c) - 48"

definition LONG_MAX :: int where "LONG_MAX = 2 ^ 63 - 1"
definition LONG_MIN :: int where "LONG_MIN = - (2 ^ 63)"

text \<open>
  Modelled from the C standard: \<open>strtol\<close> with base 10 belongs to the C library. It skips
  white space, reads an optional sign and the longest run of digits, clamps the value to the
  range of \<open>long\<close> and reports where it stopped; without a digit it returns 0 and reports the
  start of the input.
\<close>

definition strtol10 :: "string \<Rightarrow> int \<times> string" where
  "strtol10 s =
     (let s1 = dropWhile isspace s;
          (neg, s2) = (case s1 of
                         [] \<Rightarrow> (False, s1)
                       | c # r \<Rightarrow> if c = CHR ''-'' then (True, r)
                                  else if c = CHR ''+'' then (False, r) else (False, s1));
          ds = takeWhile isdigit s2
      in if ds = [] then (0, s)
         else
           let v = foldl (\<lambda>a c. 10 * a + digit_val c) 0 ds;
               v' = (if neg then - v else v)
           in (max LONG_MIN (min LONG_MAX v'), dropWhile isdigit s2))"

text \<open>The conversion from \<open>long\<close> to \<open>int\<close> keeps the low 32 bits.\<close>

definition long_to_int :: "int \<Rightarrow> int" where
  "long_to_int x = sint (word_of_int x :: 32 word)"

subsection \<open>Building the tree\<close>

text \<open>
  \<open>dart__base__locality__domain_locality_init\<close> on a freshly allocated array slot. The
  allocation leaves the slot's content unspecified; the fields that the initialisation does
  not write (\<open>relative_index\<close>, \<open>node_id\<close>, \<open>hwinfo\<close>, \<open>unit_ids\<close>) are written by the
  caller before they are read, and are zero here.
\<close>

definition malloc_domain :: domain_fields where
  "malloc_domain =
     \<lparr>domain_tag = [], host = [], scope = DART_LOCALITY_SCOPE_UNDEFINED, level = 0,
      relative_index = 0, node_id = 0,
      hwinfo = \<lparr>numa_id = 0, cpu_id = 0, num_cores = 0, num_modules = 0, num_numa = 0,
                min_threads = 0, max_threads = 0, min_cpu_mhz = 0, max_cpu_mhz = 0\<rparr>,
      num_nodes = 0, num_units = 0, unit_ids = [], num_domains = 0\<rparr>"

definition domain_locality_init :: "domain_fields \<Rightarrow> domain_fields" where
  "domain_locality_init loc =
     loc\<lparr>domain_tag := [], host := [], scope := DART_LOCALITY_SCOPE_UNDEFINED, level := 0,
         num_domains := 0, num_nodes := - 1, num_units := - 1\<rparr>"

text \<open>
  The four functions that fill a sub-domain read the parent and write scalar fields of the
  sub-domain only. A unit list that a failed call has not delivered is an unset output.
\<close>

definition create_global_subdomain ::
    "dart_host_topology \<Rightarrow> domain_fields \<Rightarrow> domain_fields \<Rightarrow> int
       \<Rightarrow> loc_fault + dart_ret \<times> domain_fields" where
  "create_global_subdomain topo global_domain subdomain rel_idx =
     (let node_hostname = host_names topo rel_idx in
      case node_units topo node_hostname of
        None \<Rightarrow> Inl Unset_output
      | Some node_unit_ids \<Rightarrow>
          Inr (DART_OK,
               subdomain\<lparr>host := node_hostname, node_id := rel_idx, num_nodes := 1,
                         num_units := int (length node_unit_ids), unit_ids := node_unit_ids\<rparr>))"

definition create_node_subdomain ::
    "dart_host_topology \<Rightarrow> domain_fields \<Rightarrow> domain_fields \<Rightarrow> int
       \<Rightarrow> loc_fault + dart_ret \<times> domain_fields" where
  "create_node_subdomain topo node_domain subdomain rel_idx =
     (let module_hostname = host_names topo rel_idx in
      case module_units topo module_hostname of
        None \<Rightarrow> Inl Unset_output
      | Some module_unit_ids \<Rightarrow>
          Inr (DART_OK,
               subdomain\<lparr>host := module_hostname, num_nodes := 1,
                         num_units := int (length module_unit_ids),
                         unit_ids := module_unit_ids\<rparr>))"

definition create_module_subdomain ::
    "dart_host_topology \<Rightarrow> domain_fields \<Rightarrow> domain_fields \<Rightarrow> int
       \<Rightarrow> loc_fault + dart_ret \<times> domain_fields" where
  "create_module_subdomain topo module_domain subdomain rel_idx =
     (let module_hostname = host module_domain in
      case module_units topo module_hostname of
        None \<Rightarrow> Inl Unset_output
      | Some module_unit_ids \<Rightarrow>
          (case collect (map (\<lambda>u. case unit_numa_id topo u of
                                      None \<Rightarrow> Inl Unset_output
                                    | Some n \<Rightarrow> Inr (u, n)) module_unit_ids) of
             Inl e \<Rightarrow> Inl e
           | Inr unit_numa \<Rightarrow>
               let numa_unit_ids = map fst (filter (\<lambda>(u, n). n = rel_idx) unit_numa);
                   num_numa_units = int (length numa_unit_ids)
               in Inr (DART_OK,
                       subdomain\<lparr>host := module_hostname,
                                 hwinfo := (hwinfo subdomain)
                                   \<lparr>num_modules := 1, num_numa := 1, num_cores := num_numa_units\<rparr>,
                                 num_nodes := 1, num_units := num_numa_units,
                                 unit_ids := numa_unit_ids\<rparr>)))"

definition create_numa_subdomain ::
    "dart_host_topology \<Rightarrow> domain_fields \<Rightarrow> domain_fields \<Rightarrow> int
       \<Rightarrow> loc_fault + dart_ret \<times> domain_fields" where
  "create_numa_subdomain topo numa_domain subdomain rel_idx =
     (if num_domains numa_domain = 0 then Inl Division_by_zero
      else
        let num_uma_units = c_div (num_units numa_domain) (num_domains numa_domain);
            sub1 = subdomain\<lparr>hwinfo := (hwinfo subdomain)
                               \<lparr>num_modules := 1, num_numa := 1,
                                num_cores := c_div (num_cores (hwinfo numa_domain))
                                               (num_domains numa_domain)\<rparr>,
                             num_nodes := 1, num_units := num_uma_units\<rparr>
        in case collect (map (\<lambda>u.
                   let numa_unit_idx = rel_idx * num_uma_units + u in
                   if 0 \<le> numa_unit_idx \<and> numa_unit_idx < int (length (unit_ids numa_domain))
                   then
                     (let unit_id = unit_ids numa_domain ! nat numa_unit_idx in
                      case unit_numa_id topo unit_id of
                        None \<Rightarrow> Inl Assert_returns
                      | Some n \<Rightarrow> Inr unit_id)
                   else Inl Out_of_bounds) [0..num_units sub1 - 1]) of
             Inl e \<Rightarrow> Inl e
           | Inr ids \<Rightarrow> Inr (DART_OK, sub1\<lparr>unit_ids := ids\<rparr>))"

text \<open>
  The first step of \<open>create_subdomains\<close>: the number of sub-domains and their scope. For a
  module it also sets the module's own number of units, asserting that the lookup succeeds.
  \<open>None\<close> is the early return with \<open>DART_ERR_INVAL\<close>.
\<close>

definition subdomain_count ::
    "dart_host_topology \<Rightarrow> domain_fields
       \<Rightarrow> loc_fault + (domain_fields \<times> dart_locality_scope) option" where
  "subdomain_count topo domain =
     (case scope domain of
        DART_LOCALITY_SCOPE_UNDEFINED \<Rightarrow> Inr None
      | DART_LOCALITY_SCOPE_GLOBAL \<Rightarrow>
          Inr (Some (domain\<lparr>num_domains := topology_num_nodes topo\<rparr>, DART_LOCALITY_SCOPE_NODE))
      | DART_LOCALITY_SCOPE_NODE \<Rightarrow>
          Inr (Some (domain\<lparr>num_domains := num_modules (hwinfo domain)\<rparr>,
                     DART_LOCALITY_SCOPE_MODULE))
      | DART_LOCALITY_SCOPE_MODULE \<Rightarrow>
          (case module_units topo (host_names topo (relative_index domain)) of
             None \<Rightarrow> Inl Assert_returns
           | Some module_unit_ids \<Rightarrow>
               Inr (Some (domain\<lparr>num_domains := num_numa (hwinfo domain),
                                 num_units := int (length module_unit_ids)\<rparr>,
                          DART_LOCALITY_SCOPE_NUMA)))
      | DART_LOCALITY_SCOPE_NUMA \<Rightarrow>
          Inr (Some (domain\<lparr>num_domains := num_units domain\<rparr>, DART_LOCALITY_SCOPE_CORE))
      | DART_LOCALITY_SCOPE_CORE \<Rightarrow>
          Inr (Some (domain\<lparr>num_domains := 0\<rparr>, DART_LOCALITY_SCOPE_UNDEFINED)))"

text \<open>
  The body of the loop up to the recursive call: the sub-domain at \<open>rel_idx\<close> with its tag,
  filled according to the scope of the parent.
\<close>

definition init_subdomain ::
    "dart_host_topology \<Rightarrow> domain_fields \<Rightarrow> dart_locality_scope \<Rightarrow> int
       \<Rightarrow> loc_fault + domain_fields" where
  "init_subdomain topo domain sub_scope rel_idx =
     (let sub0 = (domain_locality_init malloc_domain)
                   \<lparr>hwinfo := hwinfo domain, scope := sub_scope, relative_index := rel_idx,
                    level := level domain + 1, node_id := node_id domain, host := host domain\<rparr>;
          base_tag = (if level domain > 0 then domain_tag domain else []);
          sub1 = sub0\<lparr>domain_tag := base_tag @ CHR ''.'' # sprintf_d rel_idx\<rparr>
      in case scope domain of
           DART_LOCALITY_SCOPE_GLOBAL \<Rightarrow>
             map_sum id snd (create_global_subdomain topo domain sub1 rel_idx)
         | DART_LOCALITY_SCOPE_NODE \<Rightarrow>
             map_sum id snd (create_node_subdomain topo domain sub1 rel_idx)
         | DART_LOCALITY_SCOPE_MODULE \<Rightarrow>
             map_sum id snd (create_module_subdomain topo domain sub1 rel_idx)
         | DART_LOCALITY_SCOPE_NUMA \<Rightarrow>
             map_sum id snd (create_numa_subdomain topo domain sub1 rel_idx)
         | DART_LOCALITY_SCOPE_CORE \<Rightarrow>
             (if 0 \<le> rel_idx \<and> rel_idx < int (length (unit_ids domain))
              then Inr (sub1\<lparr>hwinfo := (hwinfo sub1)\<lparr>num_modules := 1, num_numa := 1, num_cores := 1\<rparr>,
                             num_nodes := 1, num_units := 1,
                             unit_ids := [unit_ids domain ! nat rel_idx]\<rparr>)
              else Inl Out_of_bounds)
         | DART_LOCALITY_SCOPE_UNDEFINED \<Rightarrow> Inr sub1)"

fun scope_rank :: "dart_locality_scope \<Rightarrow> nat" where
  "scope_rank DART_LOCALITY_SCOPE_GLOBAL = 5"
| "scope_rank DART_LOCALITY_SCOPE_NODE = 4"
| "scope_rank DART_LOCALITY_SCOPE_MODULE = 3"
| "scope_rank DART_LOCALITY_SCOPE_NUMA = 2"
| "scope_rank DART_LOCALITY_SCOPE_CORE = 1"
| "scope_rank DART_LOCALITY_SCOPE_UNDEFINED = 0"

lemma subdomain_count_rank:
  "subdomain_count topo f = Inr (Some (f1, sub_scope)) \<Longrightarrow> num_domains f1 \<noteq> 0 \<Longrightarrow>
   scope_rank sub_scope < scope_rank (scope f)"
  by (auto simp: subdomain_count_def split: dart_locality_scope.splits option.splits)

lemma subdomain_count_scope:
  "subdomain_count topo f = Inr (Some (f1, sub_scope)) \<Longrightarrow> scope f1 = scope f"
  by (auto simp: subdomain_count_def split: dart_locality_scope.splits option.splits)

lemma init_subdomain_scope:
  "init_subdomain topo f1 sub_scope rel_idx = Inr sub \<Longrightarrow> scope sub = sub_scope"
  by (auto simp: init_subdomain_def create_global_subdomain_def create_node_subdomain_def
      create_module_subdomain_def create_numa_subdomain_def Let_def
      split: dart_locality_scope.splits option.splits sum.splits if_splits)

function create_subdomains ::
    "dart_host_topology \<Rightarrow> dart_domain_locality \<Rightarrow> loc_fault + dart_ret \<times> dart_domain_locality" where
  "create_subdomains topo (Domain_locality domain ds) =
     (case subdomain_count topo domain of
        Inl e \<Rightarrow> Inl e
      | Inr None \<Rightarrow> Inr (DART_ERR_INVAL, Domain_locality domain ds)
      | Inr (Some (domain1, sub_scope)) \<Rightarrow>
          if num_domains domain1 = 0 then Inr (DART_OK, Domain_locality domain1 None)
          else
            (case collect (map (\<lambda>rel_idx.
                      case init_subdomain topo domain1 sub_scope rel_idx of
                        Inl e \<Rightarrow> Inl e
                      | Inr sub \<Rightarrow>
                          (case create_subdomains topo (Domain_locality sub None) of
                             Inl e \<Rightarrow> Inl e
                           | Inr (r, subdomain) \<Rightarrow>
                               if r = DART_OK then Inr subdomain else Inl Assert_returns))
                    [0..num_domains domain1 - 1]) of
               Inl e \<Rightarrow> Inl e
             | Inr subdomains \<Rightarrow>
                 Inr (DART_OK,
                      Domain_locality domain1
                        (if 0 < num_domains domain1 then Some subdomains else None))))"
  by pat_completeness auto
termination
  by (relation "measure (\<lambda>(topo, d). scope_rank (scope (scalars d)))")
     (auto dest: subdomain_count_rank init_subdomain_scope)

declare create_subdomains.simps [simp del]

text \<open>
  The root as \<open>dart__base__locality__init\<close> sets it up in static storage, given the
  hardware information, the host name, the number of units and the topology's number of
  modules.
\<close>

definition locality_root :: "dart_hwinfo \<Rightarrow> string \<Rightarrow> nat \<Rightarrow> int \<Rightarrow> int \<Rightarrow> dart_domain_locality" where
  "locality_root hw hostname n topo_nodes topo_modules =
     Domain_locality
       \<lparr>domain_tag = ''.'', host = hostname, scope = DART_LOCALITY_SCOPE_GLOBAL, level = 0,
        relative_index = 0, node_id = 0, hwinfo = hw\<lparr>num_modules := topo_modules\<rparr>,
        num_nodes = topo_nodes, num_units = int n, unit_ids = map int [0..<n],
        num_domains = 0\<rparr> None"

subsection \<open>Lookup by tag\<close>

text \<open>
  A pointer to a domain is the path of child indices from the root. Pointer arithmetic on the
  array of sub-domains can also yield \<open>NULL\<close> (a \<open>NULL\<close> array plus zero) or a pointer
  outside every array.
\<close>

datatype domain_ptr = Ptr_null | Ptr_domain "nat list" | Ptr_wild

fun subdomain_at :: "dart_domain_locality \<Rightarrow> nat list \<Rightarrow> dart_domain_locality option" where
  "subdomain_at d [] = Some d"
| "subdomain_at d (i # path) =
     (case domains d of
        None \<Rightarrow> None
      | Some subdomains \<Rightarrow>
          if i < length subdomains then subdomain_at (subdomains ! i) path else None)"

definition subdomain_ptr :: "dart_domain_locality \<Rightarrow> nat list \<Rightarrow> int \<Rightarrow> domain_ptr" where
  "subdomain_ptr d path subdomain_idx =
     (case domains d of
        None \<Rightarrow> if subdomain_idx = 0 then Ptr_null else Ptr_wild
      | Some subdomains \<Rightarrow>
          if 0 \<le> subdomain_idx \<and> subdomain_idx < int (length subdomains)
          then Ptr_domain (path @ [nat subdomain_idx])
          else Ptr_wild)"

definition strchr :: "string \<Rightarrow> char \<Rightarrow> string option" where
  "strchr s c = (case dropWhile (\<lambda>x. x \<noteq> c) s of [] \<Rightarrow> None | r \<Rightarrow> Some r)"

lemma strtol10_length: "length (snd (strtol10 s)) \<le> length s"
proof -
  have drop: "length (dropWhile P xs) \<le> length xs" for P and xs :: string
    by (induction xs) auto
  have sign: "length (snd (case s1 of
                 [] \<Rightarrow> (False, s1)
               | c # r \<Rightarrow> if c = CHR ''-'' then (True, r)
                          else if c = CHR ''+'' then (False, r) else (False, s1))) \<le> length s1"
    for s1 :: string
    by (cases s1) auto
  show ?thesis
    unfolding strtol10_def Let_def
    by (auto simp: case_prod_beta intro: order_trans [OF drop] order_trans [OF sign] drop)
qed

text \<open>
  The loop of the lookup. \<open>dot_begin\<close> is the text from the current separator on; the text
  after it is \<open>part_begin\<close>. The result carries the pointer stored through \<open>locality\<close>,
  which is written only on success.
\<close>

function locality_domain_loop ::
    "dart_domain_locality \<Rightarrow> domain_ptr \<Rightarrow> string \<Rightarrow> loc_fault + dart_ret \<times> domain_ptr option" where
  "locality_domain_loop root domain dot_begin =
     (case dot_begin of
        [] \<Rightarrow> Inr (DART_OK, Some domain)
      | c # part_begin \<Rightarrow>
          if part_begin = [] then Inr (DART_OK, Some domain)
          else
            let tag_part = fst (strtol10 part_begin);
                dot_end = snd (strtol10 part_begin);
                subdomain_idx = long_to_int tag_part
            in (case domain of
                  Ptr_null \<Rightarrow> Inr (DART_ERR_INVAL, None)
                | Ptr_wild \<Rightarrow> Inl Out_of_bounds
                | Ptr_domain path \<Rightarrow>
                    (case subdomain_at root path of
                       None \<Rightarrow> Inl Out_of_bounds
                     | Some d \<Rightarrow>
                         if num_domains (scalars d) \<le> subdomain_idx then Inr (DART_ERR_INVAL, None)
                         else locality_domain_loop root (subdomain_ptr d path subdomain_idx)
                                dot_end)))"
  by pat_completeness auto
termination
  by (relation "measure (\<lambda>(root, domain, dot_begin). length dot_begin)")
     (auto simp: less_Suc_eq_le strtol10_length)

declare locality_domain_loop.simps [simp del]

definition dart_base_locality_domain ::
    "dart_domain_locality \<Rightarrow> string \<Rightarrow> loc_fault + dart_ret \<times> domain_ptr option" where
  "dart_base_locality_domain root tag =
     (case strchr tag CHR ''.'' of
        None \<Rightarrow> Inr (DART_OK, Some (Ptr_domain []))
      | Some dot_begin \<Rightarrow> locality_domain_loop root (Ptr_domain []) dot_begin)"

subsection \<open>Deleting a domain\<close>

text \<open>
  The deletion of the domain behind a non-\<open>NULL\<close> pointer. The loop runs over the indices
  below the number of sub-domains read at entry; since that field is not written before the
  loop ends, the test for an index out of range never holds, and the test for a missing array
  decides at the first index. Each sub-domain is deleted in turn, the return value of the call
  being dropped; an index beyond the array that is there is a read out of bounds.
\<close>

function domain_delete :: "dart_domain_locality \<Rightarrow> loc_fault + dart_ret \<times> dart_domain_locality" where
  "domain_delete (Domain_locality domain ds) =
     (let num_child_nodes = num_domains domain in
      if num_child_nodes \<le> 0
      then Inr (DART_OK, Domain_locality (domain\<lparr>num_domains := 0\<rparr>) None)
      else
        (case ds of
           None \<Rightarrow> Inr (DART_ERR_INVAL, Domain_locality domain ds)
         | Some subdomains \<Rightarrow>
             (case collect (map (\<lambda>subdom_idx.
                       if subdom_idx < int (length subdomains)
                       then map_sum id fst (domain_delete (subdomains ! nat subdom_idx))
                       else Inl Out_of_bounds) [0..num_child_nodes - 1]) of
                Inl e \<Rightarrow> Inl e
              | Inr rets \<Rightarrow> Inr (DART_OK, Domain_locality (domain\<lparr>num_domains := 0\<rparr>) None))))"
  by pat_completeness auto
termination
proof (relation "measure size")
  show "wf (measure size)" by simp
next
  fix domain :: domain_fields and ds :: "dart_domain_locality list option"
    and subdomains :: "dart_domain_locality list" and subdom_idx x :: int
  assume "ds = Some subdomains" "subdom_idx \<in> set [0..x - 1]"
    "subdom_idx < int (length subdomains)"
  then have "subdomains ! nat subdom_idx \<in> set subdomains"
    by (intro nth_mem) (simp add: nat_less_iff)
  then have "size (subdomains ! nat subdom_idx) \<le> size_list size subdomains"
    by (simp add: size_list_estimation')
  then show "(subdomains ! nat subdom_idx, Domain_locality domain ds) \<in> measure size"
    using \<open>ds = Some subdomains\<close> by simp
qed

definition dart_base_locality_domain_delete ::
    "dart_domain_locality option \<Rightarrow> loc_fault + dart_ret \<times> dart_domain_locality option" where
  "dart_base_locality_domain_delete domain =
     (case domain of
        None \<Rightarrow> Inr (DART_OK, None)
      | Some d \<Rightarrow> map_sum id (map_prod id Some) (domain_delete d))"

text \<open>
  The reads of the loop stay inside the arrays: wherever the deletion descends, each index
  below the number of sub-domains is an index of the array that is there.
\<close>

function arrays_fit :: "dart_domain_locality \<Rightarrow> bool" where
  "arrays_fit (Domain_locality domain ds) =
     (case ds of
        None \<Rightarrow> True
      | Some subdomains \<Rightarrow>
          (\<forall>subdom_idx \<in> set [0..num_domains domain - 1].
             if subdom_idx < int (length subdomains)
             then arrays_fit (subdomains ! nat subdom_idx)
             else False))"
  by pat_completeness auto
termination
proof (relation "measure size")
  show "wf (measure size)" by simp
next
  fix domain :: domain_fields and ds :: "dart_domain_locality list option"
    and subdomains :: "dart_domain_locality list" and subdom_idx :: int
  assume "ds = Some subdomains" "subdom_idx \<in> set [0..num_domains domain - 1]"
    "subdom_idx < int (length subdomains)"
  then have "subdomains ! nat subdom_idx \<in> set subdomains"
    by (intro nth_mem) (simp add: nat_less_iff)
  then have "size (subdomains ! nat subdom_idx) \<le> size_list size subdomains"
    by (simp add: size_list_estimation')
  then show "(subdomains ! nat subdom_idx, Domain_locality domain ds) \<in> measure size"
    using \<open>ds = Some subdomains\<close> by simp
qed

text \<open>Two small trees: a root with two leaves, and a domain whose count of sub-domains is
  positive while its array is \<open>NULL\<close>.\<close>

definition leaf_domain :: "string \<Rightarrow> int \<Rightarrow> dart_domain_locality" where
  "leaf_domain tag i =
     Domain_locality (malloc_domain\<lparr>domain_tag := tag, scope := DART_LOCALITY_SCOPE_NODE,
                                   level := 1, relative_index := i\<rparr>) None"

definition small_tree :: dart_domain_locality where
  "small_tree =
     Domain_locality (malloc_domain\<lparr>domain_tag := ''.'', scope := DART_LOCALITY_SCOPE_GLOBAL,
                                   num_domains := 2\<rparr>)
       (Some [leaf_domain ''.0'' 0, leaf_domain ''.1'' 1])"

definition childless :: dart_domain_locality where
  "childless = Domain_locality (malloc_domain\<lparr>num_domains := 1\<rparr>) None"

text \<open>The largest value of a C \<open>int\<close>.\<close>

definition INT_MAX :: int where
  "INT_MAX = 2 ^ 31 - 1"

text \<open>
  Facts about a domain that the builder establishes before it descends into it: a NUMA domain
  has as many cores as units and a unit list of that length; the counts that become numbers of
  sub-domains fit a C \<open>int\<close>.
\<close>

definition numa_counts :: "domain_fields \<Rightarrow> bool" where
  "numa_counts f \<longleftrightarrow>
     (scope f = DART_LOCALITY_SCOPE_NUMA \<longrightarrow>
        num_cores (hwinfo f) = num_units f \<and> int (length (unit_ids f)) = num_units f)"

definition counts_fit :: "dart_host_topology \<Rightarrow> domain_fields \<Rightarrow> bool" where
  "counts_fit topo f \<longleftrightarrow>
     topology_num_nodes topo \<le> INT_MAX \<and> num_modules (hwinfo f) \<le> INT_MAX \<and>
     num_numa (hwinfo f) \<le> INT_MAX \<and>
     (\<forall>h us. module_units topo h = Some us \<longrightarrow> int (length us) \<le> INT_MAX) \<and>
     (scope f = DART_LOCALITY_SCOPE_NUMA \<longrightarrow> num_units f \<le> INT_MAX)"

text \<open>\<open>child_link d i c\<close>: \<open>c\<close> is the sub-domain of \<open>d\<close> at index \<open>i\<close>, one level
  below \<open>d\<close>, and its tag extends the tag of \<open>d\<close> by the index.\<close>

definition child_link :: "dart_domain_locality \<Rightarrow> nat \<Rightarrow> dart_domain_locality \<Rightarrow> bool" where
  "child_link d i c \<longleftrightarrow>
     (\<exists>cs. domains d = Some cs \<and> i < length cs \<and> c = cs ! i \<and>
           num_domains (scalars d) = int (length cs) \<and> int (length cs) \<le> INT_MAX \<and>
           level (scalars c) = level (scalars d) + 1 \<and>
           domain_tag (scalars c) =
             (if level (scalars d) > 0 then domain_tag (scalars d) else []) @ CHR ''.'' # dec i)"

text \<open>The tag that spells a path of child indices.\<close>

definition path_tag :: "nat list \<Rightarrow> string" where
  "path_tag p = concat (map (\<lambda>i. CHR ''.'' # dec i) p)"

text \<open>
  Eight units on two hosts, four on each, with two NUMA domains per module and the NUMA id of
  a unit being its id modulo 2; the tree built for them.
\<close>

definition topo8 :: dart_host_topology where
  "topo8 =
     \<lparr>topology_num_nodes = 2, host_names = (\<lambda>i. if i = 0 then ''h1'' else ''h2''),
      node_units = (\<lambda>h. if h = ''h1'' then Some [0, 1, 2, 3]
                         else if h = ''h2'' then Some [4, 5, 6, 7] else None),
      module_units = (\<lambda>h. if h = ''h1'' then Some [0, 1, 2, 3]
                           else if h = ''h2'' then Some [4, 5, 6, 7] else None),
      unit_numa_id = (\<lambda>u. if 0 \<le> u \<and> u < 8 then Some (u mod 2) else None)\<rparr>"

definition hw8 :: dart_hwinfo where
  "hw8 = \<lparr>numa_id = 0, cpu_id = 0, num_cores = 4, num_modules = 1, num_numa = 2,
          min_threads = 1, max_threads = 1, min_cpu_mhz = 1, max_cpu_mhz = 1\<rparr>"

definition tree8 :: dart_domain_locality where
  "tree8 = (case create_subdomains topo8 (locality_root hw8 ''h1'' 8 2 1) of
              Inr (r, t) \<Rightarrow> t
            | Inl e \<Rightarrow> locality_root hw8 ''h1'' 8 2 1)"

text \<open>What the claim about CORE leaves says of a leaf and its parent.\<close>

definition core_leaf :: "dart_domain_locality \<Rightarrow> dart_domain_locality \<Rightarrow> bool" where
  "core_leaf parent leaf \<longleftrightarrow>
     num_units (scalars leaf) = 1 \<and> num_modules (hwinfo (scalars leaf)) = 1 \<and>
     num_numa (hwinfo (scalars leaf)) = 1 \<and> num_cores (hwinfo (scalars leaf)) = 1 \<and>
     0 \<le> relative_index (scalars leaf) \<and>
     nat (relative_index (scalars leaf)) < length (unit_ids (scalars parent)) \<and>
     unit_ids (scalars leaf) = [unit_ids (scalars parent) ! nat (relative_index (scalars leaf))]"


subsection \<open>The lists of the module and their elements\<close>

text \<open>
  The pointers from which the module reaches hash elements: the head of the free list, the
  head of the list of unhandled remote dependencies, the hash slots and the remote-successor
  list of each task.
\<close>

datatype owner = Free_list | Unhandled_list | Hash_slot nat | Remote_successors taskref

definition head_of :: "datadeps \<Rightarrow> owner \<Rightarrow> elem_ptr" where
  "head_of s r =
     (case r of
        Free_list \<Rightarrow> freelist_head s
      | Unhandled_list \<Rightarrow> unhandled_remote_deps s
      | Hash_slot i \<Rightarrow> if i < DART_DEPHASH_SIZE then local_deps s i else None
      | Remote_successors t \<Rightarrow> remote_successor (tasks s t))"

text \<open>An element is zeroed up to its link: every field but \<open>next\<close> is zero.\<close>

definition payload_zero :: "dart_dephash_elem \<Rightarrow> bool" where
  "payload_zero el \<longleftrightarrow> el = zero_elem\<lparr>next := next el\<rparr>"

text \<open>
  \<open>lists_ok h b hp L\<close>: in the store \<open>h\<close> with allocation mark \<open>b\<close>, every head \<open>hp r\<close>
  starts a NULL-terminated list \<open>L r\<close>; the lists of different heads share no element; all
  their elements have been allocated; the elements of the free list are zeroed up to the link.
  An element is floating when it is in none of the lists.
\<close>

definition lists_ok ::
    "(nat \<Rightarrow> dart_dephash_elem) \<Rightarrow> nat \<Rightarrow> (owner \<Rightarrow> elem_ptr) \<Rightarrow> (owner \<Rightarrow> nat list) \<Rightarrow> bool" where
  "lists_ok h b hp L \<longleftrightarrow>
     (\<forall>r. chain h (hp r) (L r)) \<and>
     (\<forall>r r'. r \<noteq> r' \<longrightarrow> set (L r) \<inter> set (L r') = {}) \<and>
     (\<forall>r. \<forall>e \<in> set (L r). e < b) \<and>
     (\<forall>e \<in> set (L Free_list). payload_zero (h e))"

definition floating :: "(owner \<Rightarrow> nat list) \<Rightarrow> nat \<Rightarrow> bool" where
  "floating L e \<longleftrightarrow> (\<forall>r. e \<notin> set (L r))"


definition held :: "datadeps \<Rightarrow> nat \<Rightarrow> bool" where
  "held s e \<longleftrightarrow> (\<exists>L. lists_ok (elems s) (brk s) (head_of s) L \<and> floating L e \<and> e < brk s)"




text \<open>\<open>seg h p ks q\<close>: following \<open>next\<close> from \<open>p\<close> visits the elements \<open>ks\<close> and arrives at
  \<open>q\<close>. \<open>prev_in prev ks\<close>: the pointer \<open>prev\<close> of the sweep is \<open>NULL\<close> or one of \<open>ks\<close>.\<close>

primrec seg :: "(nat \<Rightarrow> dart_dephash_elem) \<Rightarrow> elem_ptr \<Rightarrow> nat list \<Rightarrow> elem_ptr \<Rightarrow> bool" where
  "seg h p [] q \<longleftrightarrow> p = q"
| "seg h p (a # as) q \<longleftrightarrow> p = Some a \<and> seg h (next (h a)) as q"


subsection \<open>The interface as a transition system\<close>






section \<open>Properties of the dependency hash\<close>

lemma hash_gptr_lt: "hash_gptr g < DART_DEPHASH_SIZE"
proof -
  have "unat (w mod (1024 :: 64 word)) < 1024" for w :: "64 word"
    by (simp add: unat_mod)
  then show ?thesis
    by (simp add: hash_gptr_def DART_DEPHASH_SIZE_def Let_def)
qed

lemma chain_functional: "chain h p as \<Longrightarrow> chain h p bs \<Longrightarrow> as = bs"
proof (induction as arbitrary: p bs)
  case Nil
  then show ?case by (cases bs) auto
next
  case (Cons a as)
  then show ?case by (cases bs) auto
qed

lemma chain_suffix_at: "chain h p (as @ a # bs) \<Longrightarrow> chain h (next (h a)) bs"
  by (induction as arbitrary: p) auto

lemma chain_head_fresh:
  assumes "chain h (next (h a)) as"
  shows "a \<notin> set as"
proof
  assume "a \<in> set as"
  then obtain xs ys where split: "as = xs @ a # ys"
    by (auto simp: in_set_conv_decomp)
  with assms have "chain h (next (h a)) ys"
    using chain_suffix_at by blast
  with assms have "as = ys"
    by (rule chain_functional)
  with split show False by simp
qed


lemma chain_update_other: "a \<notin> set as \<Longrightarrow> chain (h(a := v)) p as \<longleftrightarrow> chain h p as"
  by (induction as arbitrary: p) auto

subsection \<open>The hash function\<close>

text \<open>
  C7. For a global pointer whose absolute 64-bit offset is \<open>addr\<close>, the slot computed by
  \<open>hash_gptr\<close> is \<open>((addr>>3) ^ (addr>>10) ^ (addr>>14) ^ (addr>>20)) mod 1024\<close>, it is a valid
  index into the table, and the table has 1024 slots.
\<close>

theorem hash_gptr_formula:
  "hash_gptr g =
     unat ((drop_bit 3 (addr_or_offs g) XOR drop_bit 10 (addr_or_offs g) XOR
            drop_bit 14 (addr_or_offs g) XOR drop_bit 20 (addr_or_offs g)) mod 1024)
   \<and> hash_gptr g < DART_DEPHASH_SIZE \<and> DART_DEPHASH_SIZE = 1024"
proof -
  have "hash_gptr g =
     unat ((drop_bit 3 (addr_or_offs g) XOR drop_bit 10 (addr_or_offs g) XOR
            drop_bit 14 (addr_or_offs g) XOR drop_bit 20 (addr_or_offs g)) mod 1024)"
    by (simp add: hash_gptr_def DART_DEPHASH_SIZE_def Let_def drop_bit_drop_bit)
  moreover have "DART_DEPHASH_SIZE = 1024"
    by (simp add: DART_DEPHASH_SIZE_def)
  ultimately show ?thesis
    using hash_gptr_lt [of g] by simp
qed

subsection \<open>Remote requests of a kind other than IN\<close>

text \<open>
  C8. A call of \<open>handle_remote_task\<close> whose dependency is not of kind IN returns
  \<open>DART_ERR_INVAL\<close> and leaves the whole state as it was: the hash slots, the list of
  unhandled remote dependencies, every task's list of remote successors, the store of elements
  and the record of calls to the transport.
\<close>

theorem handle_remote_task_rejects_non_in:
  "dep_type (dep pd) \<noteq> DART_DEP_IN \<Longrightarrow>
   dart_tasking_datadeps_handle_remote_task pd remote_task origin s = Some (Inr (DART_ERR_INVAL, s))"
  by (simp add: dart_tasking_datadeps_handle_remote_task_def)

theorem handle_remote_task_rejects_non_in_witness:
  "dart_tasking_datadeps_handle_remote_task
     \<lparr>dep = \<lparr>dep_type = DART_DEP_OUT, gptr = \<lparr>unitid = 0, segid = 0, addr_or_offs = 0x2000\<rparr>\<rparr>,
      dep_phase = 3\<rparr> 7 1 (datadeps_static (\<lambda>_. new_task 0) (\<lambda>_. DART_OK))
   = Some (Inr (DART_ERR_INVAL, datadeps_static (\<lambda>_. new_task 0) (\<lambda>_. DART_OK)))"
  using handle_remote_task_rejects_non_in
    [of "\<lparr>dep = \<lparr>dep_type = DART_DEP_OUT, gptr = \<lparr>unitid = 0, segid = 0, addr_or_offs = 0x2000\<rparr>\<rparr>,
          dep_phase = 3\<rparr>" 7 1 "datadeps_static (\<lambda>_. new_task 0) (\<lambda>_. DART_OK)"]
  by simp

subsection \<open>Three tasks on one address\<close>

lemmas alloc_defs = dephash_allocate_elem_def freelist_pop_def calloc_elem_def zero_elem_def
  set_next_def DART_GPTR_NULL_def

lemmas handle_task_defs = dart_tasking_datadeps_handle_task_def dephash_add_local_def
  check_unresolved_remote_deps_def IS_OUT_DEP_def inc_unresolved_deps_def tasklist_prepend_def
  ext_call_def

text \<open>
  C2. From an empty dependency hash (no element in any slot, in the free list or in the list
  of unhandled remote dependencies), registering the local tasks A with an OUT dependency, B
  with an IN dependency and C with an OUT dependency on the address \<open>0x8000\<close>, in this order,
  makes B a successor of A and C a successor of B and of A, adds no other edge, and leaves
  \<open>unresolved_deps\<close> at 0 for A, 1 for B and 2 for C.
\<close>

theorem three_tasks_one_address:
  fixes s :: datadeps and a b c :: taskref
  assumes "\<And>i. local_deps s i = None" "freelist_head s = None" "unhandled_remote_deps s = None"
    and "a \<noteq> 0" "b \<noteq> 0" "c \<noteq> 0" "a \<noteq> b" "a \<noteq> c" "b \<noteq> c"
    and "\<And>t. t \<in> {a, b, c} \<Longrightarrow>
            unresolved_deps (tasks s t) = 0 \<and> successor (tasks s t) = [] \<and>
            state (tasks s t) \<noteq> DART_TASK_FINISHED \<and> task_phase (tasks s t) = 0"
    and "unitid g = myid" "getoffset g = 0x8000"
  shows "\<exists>s1 s2 s3.
     dart_tasking_datadeps_handle_task myid getoffset a [\<lparr>dep_type = DART_DEP_OUT, gptr = g\<rparr>] s
       = Some (Inr (DART_OK, s1)) \<and>
     dart_tasking_datadeps_handle_task myid getoffset b [\<lparr>dep_type = DART_DEP_IN, gptr = g\<rparr>] s1
       = Some (Inr (DART_OK, s2)) \<and>
     dart_tasking_datadeps_handle_task myid getoffset c [\<lparr>dep_type = DART_DEP_OUT, gptr = g\<rparr>] s2
       = Some (Inr (DART_OK, s3)) \<and>
     successor (tasks s3 a) = [c, b] \<and> successor (tasks s3 b) = [c] \<and>
     successor (tasks s3 c) = [] \<and>
     (\<forall>t. t \<notin> {a, b, c} \<longrightarrow> successor (tasks s3 t) = successor (tasks s t)) \<and>
     unresolved_deps (tasks s3 a) = 0 \<and> unresolved_deps (tasks s3 b) = 1 \<and>
     unresolved_deps (tasks s3 c) = 2"
  using assms
  by (simp add: handle_task_defs alloc_defs handle_task_scan.simps Let_def)

theorem three_tasks_one_address_witness:
  "\<exists>s1 s2 s3.
     dart_tasking_datadeps_handle_task 0 addr_or_offs 1
       [\<lparr>dep_type = DART_DEP_OUT, gptr = \<lparr>unitid = 0, segid = 0, addr_or_offs = 0x8000\<rparr>\<rparr>]
       (datadeps_static (\<lambda>_. new_task 0) (\<lambda>_. DART_OK)) = Some (Inr (DART_OK, s1)) \<and>
     dart_tasking_datadeps_handle_task 0 addr_or_offs 2
       [\<lparr>dep_type = DART_DEP_IN, gptr = \<lparr>unitid = 0, segid = 0, addr_or_offs = 0x8000\<rparr>\<rparr>] s1
       = Some (Inr (DART_OK, s2)) \<and>
     dart_tasking_datadeps_handle_task 0 addr_or_offs 3
       [\<lparr>dep_type = DART_DEP_OUT, gptr = \<lparr>unitid = 0, segid = 0, addr_or_offs = 0x8000\<rparr>\<rparr>] s2
       = Some (Inr (DART_OK, s3)) \<and>
     successor (tasks s3 1) = [3, 2] \<and> successor (tasks s3 2) = [3] \<and>
     successor (tasks s3 3) = [] \<and>
     unresolved_deps (tasks s3 1) = 0 \<and> unresolved_deps (tasks s3 2) = 1 \<and>
     unresolved_deps (tasks s3 3) = 2"
proof -
  have "\<exists>s1 s2 s3.
     dart_tasking_datadeps_handle_task 0 addr_or_offs 1
       [\<lparr>dep_type = DART_DEP_OUT, gptr = \<lparr>unitid = 0, segid = 0, addr_or_offs = 0x8000\<rparr>\<rparr>]
       (datadeps_static (\<lambda>_. new_task 0) (\<lambda>_. DART_OK)) = Some (Inr (DART_OK, s1)) \<and>
     dart_tasking_datadeps_handle_task 0 addr_or_offs 2
       [\<lparr>dep_type = DART_DEP_IN, gptr = \<lparr>unitid = 0, segid = 0, addr_or_offs = 0x8000\<rparr>\<rparr>] s1
       = Some (Inr (DART_OK, s2)) \<and>
     dart_tasking_datadeps_handle_task 0 addr_or_offs 3
       [\<lparr>dep_type = DART_DEP_OUT, gptr = \<lparr>unitid = 0, segid = 0, addr_or_offs = 0x8000\<rparr>\<rparr>] s2
       = Some (Inr (DART_OK, s3)) \<and>
     successor (tasks s3 1) = [3, 2] \<and> successor (tasks s3 2) = [3] \<and>
     successor (tasks s3 3) = [] \<and>
     (\<forall>t. t \<notin> {1, 2, 3} \<longrightarrow>
        successor (tasks s3 t) =
        successor (tasks (datadeps_static (\<lambda>_. new_task 0) (\<lambda>_. DART_OK)) t)) \<and>
     unresolved_deps (tasks s3 1) = 0 \<and> unresolved_deps (tasks s3 2) = 1 \<and>
     unresolved_deps (tasks s3 3) = 2"
    by (rule three_tasks_one_address) (simp_all add: datadeps_static_def new_task_def)
  then show ?thesis by blast
qed

subsection \<open>The end of a phase\<close>

lemma release_unhandled_loop_chain:
  "chain (elems s) p ps \<Longrightarrow>
   \<exists>s'. release_unhandled_loop p s = Some s' \<and>
        calls s' = calls s @ map (release_of (elems s)) ps \<and>
        tasks s' = tasks s \<and> local_deps s' = local_deps s \<and> brk s' = brk s \<and>
        transport s' = transport s \<and>
        (\<forall>a. a \<notin> set ps \<longrightarrow> elems s' a = elems s a)"
proof (induction ps arbitrary: p s)
  case Nil
  then show ?case by (simp add: release_unhandled_loop.simps)
next
  case (Cons a ps)
  define s2 where "s2 = dephash_recycle_elem (Some a) (ext_call (release_of (elems s) a) s)"
  from Cons.prems have p: "p = Some a" and rest: "chain (elems s) (next (elems s a)) ps"
    by simp_all
  from rest have fresh: "a \<notin> set ps" by (rule chain_head_fresh)
  have el2: "elems s2 = (elems s)(a := zero_elem\<lparr>next := freelist_head s\<rparr>)"
    by (simp add: s2_def dephash_recycle_elem_def ext_call_def)
  with rest fresh have "chain (elems s2) (next (elems s a)) ps"
    by (simp add: chain_update_other)
  from Cons.IH [OF this] obtain s' where
    run: "release_unhandled_loop (next (elems s a)) s2 = Some s'"
    and post: "calls s' = calls s2 @ map (release_of (elems s2)) ps"
      "tasks s' = tasks s2" "local_deps s' = local_deps s2" "brk s' = brk s2"
      "transport s' = transport s2"
      "\<forall>b. b \<notin> set ps \<longrightarrow> elems s' b = elems s2 b"
    by blast
  have same: "map (release_of (elems s2)) ps = map (release_of (elems s)) ps"
    using fresh by (auto simp: el2 release_of_def)
  have unfold: "release_unhandled_loop p s = release_unhandled_loop (next (elems s a)) s2"
    by (subst release_unhandled_loop.simps) (simp add: p s2_def release_of_def Let_def)
  show ?case
    using run post same unfold
    by (auto simp: s2_def dephash_recycle_elem_def ext_call_def)
qed

lemma one_unhandled_eq:
  "unhandled_remote_deps one_unhandled = Some 0 \<and> calls one_unhandled = [] \<and>
   elems one_unhandled 0 =
     \<lparr>next = None, task = 7,
      taskdep = \<lparr>dep_type = DART_DEP_IN, gptr = \<lparr>unitid = 1, segid = 0, addr_or_offs = 0x2000\<rparr>\<rparr>,
      phase = 2\<rparr>"
  by (simp add: one_unhandled_def after_remote_task_def remote_in_def datadeps_static_def
      dart_tasking_datadeps_handle_remote_task_def handle_remote_task_loop.simps alloc_defs)

text \<open>
  C1, as the code has it. \<open>end_phase\<close> returns \<open>DART_OK\<close> and changes nothing. It is
  \<open>release_unhandled_remote\<close> that, for every well-formed (NULL-terminated) list of unhandled
  remote dependencies, sends one release for each entry to the entry's origin unit, in list
  order, and leaves the list empty.
\<close>

theorem release_unhandled_remote_flushes:
  assumes "chain (elems s) (unhandled_remote_deps s) ps"
  shows "dart_tasking_datadeps_end_phase p s = (DART_OK, s) \<and>
    (\<exists>s'. dart_tasking_datadeps_release_unhandled_remote s = Some (DART_OK, s') \<and>
          unhandled_remote_deps s' = None \<and>
          calls s' = calls s @ map (release_of (elems s)) ps)"
proof -
  from release_unhandled_loop_chain [OF assms] obtain s1 where
    "release_unhandled_loop (unhandled_remote_deps s) s = Some s1"
    "calls s1 = calls s @ map (release_of (elems s)) ps"
    by blast
  then show ?thesis
    by (simp add: dart_tasking_datadeps_release_unhandled_remote_def
        dart_tasking_datadeps_end_phase_def)
qed

theorem release_unhandled_remote_flushes_witness:
  "dart_tasking_datadeps_end_phase 2 one_unhandled = (DART_OK, one_unhandled) \<and>
   (\<exists>s'. dart_tasking_datadeps_release_unhandled_remote one_unhandled = Some (DART_OK, s') \<and>
         unhandled_remote_deps s' = None \<and>
         calls s' = [Remote_release 1 7
           \<lparr>dep_type = DART_DEP_IN, gptr = \<lparr>unitid = 1, segid = 0, addr_or_offs = 0x2000\<rparr>\<rparr>])"
  using release_unhandled_remote_flushes [of one_unhandled "[0]" 2]
  by (simp add: one_unhandled_eq release_of_def)

text \<open>
  With one entry in the list, \<open>end_phase(2)\<close> leaves the entry where it is and sends
  nothing.
\<close>

theorem end_phase_counterexample:
  "unhandled_remote_deps (snd (dart_tasking_datadeps_end_phase 2 one_unhandled)) = Some 0 \<and>
   calls (snd (dart_tasking_datadeps_end_phase 2 one_unhandled)) = []"
  by (simp add: dart_tasking_datadeps_end_phase_def one_unhandled_eq)

subsection \<open>The sweep over the unhandled remote dependencies\<close>

lemma two_unhandled_eq:
  "unhandled_remote_deps two_unhandled = Some (Suc 0) \<and> calls two_unhandled = [] \<and>
   elems two_unhandled 0 =
     \<lparr>next = None, task = 7,
      taskdep = \<lparr>dep_type = DART_DEP_IN, gptr = \<lparr>unitid = 1, segid = 0, addr_or_offs = 0x2000\<rparr>\<rparr>,
      phase = 2\<rparr> \<and>
   elems two_unhandled (Suc 0) =
     \<lparr>next = Some 0, task = 8,
      taskdep = \<lparr>dep_type = DART_DEP_IN, gptr = \<lparr>unitid = 1, segid = 0, addr_or_offs = 0x2000\<rparr>\<rparr>,
      phase = 1\<rparr> \<and>
   tasks two_unhandled = (\<lambda>_. new_task 2)"
  by (simp add: two_unhandled_def after_remote_task_def remote_in_def datadeps_static_def
      dart_tasking_datadeps_handle_remote_task_def handle_remote_task_loop.simps alloc_defs)

text \<open>
  C3 at a list of two requests for the same address, the first of phase 1 and the second of
  phase 2, swept for a task of phase 2 that writes the address. The request of phase 2 moves to
  the task's remote successors; for the request of phase 1 a direct dependency is sent and the
  counter is incremented, but the list is empty afterwards: the request of the earlier phase
  has been unlinked together with the one that follows it, because \<open>prev\<close> is still
  \<open>NULL\<close> when the second element is spliced out.
\<close>

theorem sweep_drops_earlier_phase_entry:
  "map_option (\<lambda>(r, s). (r, unhandled_remote_deps s, remote_successor (tasks s 5),
                           next (elems s 0), unresolved_deps (tasks s 5), calls s))
     (check_unresolved_remote_deps 5
        \<lparr>dep_type = DART_DEP_OUT, gptr = \<lparr>unitid = 0, segid = 0, addr_or_offs = 0x2000\<rparr>\<rparr>
        two_unhandled)
   = Some (DART_OK, None, Some 0, None, 1, [Remote_direct_taskdep 1 5 8])"
  by (simp add: check_unresolved_remote_deps_def check_unresolved_loop.simps IS_OUT_DEP_def
      two_unhandled_eq new_task_def push_remote_successor_def set_next_def ext_call_def
      inc_unresolved_deps_def Let_def)

subsection \<open>The free list\<close>










lemma held_same:
  assumes "held s e" "elems s' = elems s" "brk s' = brk s" "head_of s' = head_of s"
  shows "held s' e"
  using assms by (simp add: held_def)



















































lemma seg_agree:
  "(\<And>a. a \<in> set ys \<Longrightarrow> h' a = h a) \<Longrightarrow> seg h' p ys q \<longleftrightarrow> seg h p ys q"
  by (induction ys arbitrary: p) auto














section \<open>Properties of the locality tree\<close>

lemma collect_map_Inr:
  "collect (map g xs) = Inr ys \<Longrightarrow>
   length ys = length xs \<and> (\<forall>k < length xs. g (xs ! k) = Inr (ys ! k))"
proof (induction xs arbitrary: ys)
  case Nil
  then show ?case by simp
next
  case (Cons x xs)
  then obtain v vs where v: "g x = Inr v" and vs: "collect (map g xs) = Inr vs" and ys: "ys = v # vs"
    by (auto split: sum.splits)
  from Cons.IH [OF vs] v ys show ?case
    by (auto simp: nth_Cons split: nat.splits)
qed

lemma domain_delete_result:
  "domain_delete d = Inr (r, d') \<Longrightarrow>
   (r = DART_OK \<and> d' = Domain_locality ((scalars d)\<lparr>num_domains := 0\<rparr>) None) \<or>
   (r = DART_ERR_INVAL \<and> d' = d \<and> 0 < num_domains (scalars d) \<and> domains d = None)"
  by (cases d) (auto simp: Let_def split: if_splits option.splits sum.splits)

lemma collect_returns:
  "(\<exists>ys. collect (map g xs) = Inr ys) \<longleftrightarrow> (\<forall>x \<in> set xs. \<exists>v. g x = Inr v)"
  by (induction xs) (auto split: sum.splits)

lemma domain_delete_returns:
  "(\<exists>res. domain_delete d = Inr res) \<longleftrightarrow> arrays_fit d"
proof (induction d rule: arrays_fit.induct)
  case (1 domain ds)
  show ?case
  proof (cases ds)
    case None
    then show ?thesis by (simp add: Let_def)
  next
    case (Some subdomains)
    let ?g = "\<lambda>subdom_idx. if subdom_idx < int (length subdomains)
                       then map_sum id fst (domain_delete (subdomains ! nat subdom_idx))
                       else Inl Out_of_bounds"
    have each: "(\<exists>v. ?g i = Inr v) \<longleftrightarrow>
        (if i < int (length subdomains) then arrays_fit (subdomains ! nat i) else False)"
      if "i \<in> set [0..num_domains domain - 1]" for i
    proof (cases "i < int (length subdomains)")
      case True
      from "1.IH" [OF Some that True]
      show ?thesis using True
        by (cases "domain_delete (subdomains ! nat i)") auto
    next
      case False
      then show ?thesis by simp
    qed
    have "(\<exists>res. domain_delete (Domain_locality domain ds) = Inr res) \<longleftrightarrow>
          (\<exists>ys. collect (map ?g [0..num_domains domain - 1]) = Inr ys)"
      using Some by (auto simp: Let_def split: sum.splits)
    also have "\<dots> \<longleftrightarrow> (\<forall>i \<in> set [0..num_domains domain - 1]. \<exists>v. ?g i = Inr v)"
      by (rule collect_returns)
    also have "\<dots> \<longleftrightarrow> arrays_fit (Domain_locality domain ds)"
      using Some each by simp
    finally show ?thesis .
  qed
qed

lemma small_tree_fits: "arrays_fit small_tree"
  by (simp add: small_tree_def leaf_domain_def malloc_domain_def upto.simps)

lemma childless_fits: "arrays_fit childless"
  by (simp add: childless_def)

subsection \<open>Deleting a domain\<close>

text \<open>
  C10, as the code has it. Deleting through a \<open>NULL\<close> pointer returns \<open>DART_OK\<close>. The deletion
  of a domain \<open>d\<close> completes exactly when its reads stay inside the arrays. Whenever it
  completes: if \<open>d\<close> has a positive count of sub-domains and no array, it returns
  \<open>DART_ERR_INVAL\<close> and leaves \<open>d\<close> as it is; for every other \<open>d\<close> it returns \<open>DART_OK\<close>,
  whatever the deletions of the sub-domains returned, \<open>d\<close> keeps its other fields and has no
  array of sub-domains and a count of zero afterwards, and a second deletion returns
  \<open>DART_OK\<close> again and changes nothing.
\<close>

theorem domain_delete_idempotent:
  "dart_base_locality_domain_delete None = Inr (DART_OK, None) \<and>
   ((\<exists>res. dart_base_locality_domain_delete (Some d) = Inr res) \<longleftrightarrow> arrays_fit d) \<and>
   (\<forall>ret r. dart_base_locality_domain_delete (Some d) = Inr (ret, r) \<longrightarrow>
      (if 0 < num_domains (scalars d) \<and> domains d = None
       then ret = DART_ERR_INVAL \<and> r = Some d
       else ret = DART_OK \<and>
            (\<exists>d'. r = Some d' \<and> d' = Domain_locality ((scalars d)\<lparr>num_domains := 0\<rparr>) None \<and>
                  domains d' = None \<and> num_domains (scalars d') = 0 \<and>
                  dart_base_locality_domain_delete (Some d') = Inr (DART_OK, Some d'))))"
proof -
  have null: "dart_base_locality_domain_delete None = Inr (DART_OK, None)"
    by (simp add: dart_base_locality_domain_delete_def)
  have "(\<exists>res. dart_base_locality_domain_delete (Some d) = Inr res) \<longleftrightarrow>
        (\<exists>res. domain_delete d = Inr res)"
    by (cases "domain_delete d") (auto simp: dart_base_locality_domain_delete_def)
  with domain_delete_returns [of d]
  have returns: "(\<exists>res. dart_base_locality_domain_delete (Some d) = Inr res) \<longleftrightarrow> arrays_fit d"
    by simp
  have result: "if 0 < num_domains (scalars d) \<and> domains d = None
       then ret = DART_ERR_INVAL \<and> r = Some d
       else ret = DART_OK \<and>
            (\<exists>d'. r = Some d' \<and> d' = Domain_locality ((scalars d)\<lparr>num_domains := 0\<rparr>) None \<and>
                  domains d' = None \<and> num_domains (scalars d') = 0 \<and>
                  dart_base_locality_domain_delete (Some d') = Inr (DART_OK, Some d'))"
    if del: "dart_base_locality_domain_delete (Some d) = Inr (ret, r)" for ret r
  proof -
    from del obtain d' where d': "domain_delete d = Inr (ret, d')" and r: "r = Some d'"
      by (cases "domain_delete d") (auto simp: dart_base_locality_domain_delete_def)
    show ?thesis
    proof (cases "0 < num_domains (scalars d) \<and> domains d = None")
      case True
      then have "domain_delete d = Inr (DART_ERR_INVAL, d)"
        by (cases d) (simp add: Let_def)
      with d' r True show ?thesis by simp
    next
      case False
      with domain_delete_result [OF d']
      have ok: "ret = DART_OK" and eq: "d' = Domain_locality ((scalars d)\<lparr>num_domains := 0\<rparr>) None"
        by auto
      from eq have "domain_delete d' = Inr (DART_OK, d')"
        by simp
      with ok eq r False show ?thesis
        by (simp add: dart_base_locality_domain_delete_def)
    qed
  qed
  from null returns result show ?thesis by blast
qed

theorem domain_delete_idempotent_witness:
  "arrays_fit small_tree \<and> \<not> (0 < num_domains (scalars small_tree) \<and> domains small_tree = None) \<and>
   (\<exists>d'. dart_base_locality_domain_delete (Some small_tree) = Inr (DART_OK, Some d') \<and>
         domains d' = None \<and> num_domains (scalars d') = 0 \<and>
         dart_base_locality_domain_delete (Some d') = Inr (DART_OK, Some d')) \<and>
   arrays_fit childless \<and> 0 < num_domains (scalars childless) \<and> domains childless = None \<and>
   dart_base_locality_domain_delete (Some childless) = Inr (DART_ERR_INVAL, Some childless)"
proof -
  have guard: "\<not> (0 < num_domains (scalars small_tree) \<and> domains small_tree = None)"
    "0 < num_domains (scalars childless) \<and> domains childless = None"
    by (simp_all add: small_tree_def childless_def malloc_domain_def)
  from domain_delete_idempotent [of small_tree] small_tree_fits guard(1)
  have a: "\<exists>d'. dart_base_locality_domain_delete (Some small_tree) = Inr (DART_OK, Some d') \<and>
         domains d' = None \<and> num_domains (scalars d') = 0 \<and>
         dart_base_locality_domain_delete (Some d') = Inr (DART_OK, Some d')"
    by (metis (no_types, lifting) old.prod.exhaust)
  from domain_delete_idempotent [of childless] childless_fits guard(2)
  have b: "dart_base_locality_domain_delete (Some childless) = Inr (DART_ERR_INVAL, Some childless)"
    by (metis (no_types, lifting) old.prod.exhaust)
  from a b small_tree_fits childless_fits guard show ?thesis by blast
qed

text \<open>
  A domain with a positive count of sub-domains and no array: the deletion returns
  \<open>DART_ERR_INVAL\<close> and leaves the count as it is.
\<close>

theorem domain_delete_counterexample:
  "dart_base_locality_domain_delete (Some childless) = Inr (DART_ERR_INVAL, Some childless) \<and>
   num_domains (scalars childless) = 1"
  by (simp add: dart_base_locality_domain_delete_def childless_def malloc_domain_def)

subsection \<open>Lookup by tag\<close>

text \<open>
  C6 at the tag \<open>.-1\<close>, looked up in a root with two sub-domains. The index \<open>-1\<close> passes
  the only range test of the code (the count of sub-domains is not below it), and the lookup
  returns \<open>DART_OK\<close> with a pointer in front of the array of sub-domains instead of
  \<open>DART_ERR_INVAL\<close>.
\<close>

theorem lookup_negative_index:
  "dart_base_locality_domain small_tree ''.-1'' = Inr (DART_OK, Some Ptr_wild)"
  by (simp add: dart_base_locality_domain_def locality_domain_loop.simps strchr_def strtol10_def
      isspace_def isdigit_def digit_val_def long_to_int_def LONG_MAX_def LONG_MIN_def
      subdomain_ptr_def small_tree_def leaf_domain_def malloc_domain_def Let_def)

subsection \<open>CORE leaves\<close>

lemma c_div_self: "0 < n \<Longrightarrow> c_div n n = 1"
  by (simp add: c_div_def)

lemma subdomain_count_fields:
  assumes "subdomain_count topo f = Inr (Some (f1, ss))"
  shows "scope f1 = scope f" "level f1 = level f" "domain_tag f1 = domain_tag f"
    "unit_ids f1 = unit_ids f" "hwinfo f1 = hwinfo f" "relative_index f1 = relative_index f"
    "host f1 = host f"
    "scope f \<noteq> DART_LOCALITY_SCOPE_MODULE \<Longrightarrow> num_units f1 = num_units f"
    "scope f = DART_LOCALITY_SCOPE_NUMA \<Longrightarrow> num_domains f1 = num_units f"
    "ss = DART_LOCALITY_SCOPE_CORE \<Longrightarrow> scope f = DART_LOCALITY_SCOPE_NUMA"
    "ss = DART_LOCALITY_SCOPE_NUMA \<Longrightarrow> scope f = DART_LOCALITY_SCOPE_MODULE"
    "scope f = DART_LOCALITY_SCOPE_CORE \<Longrightarrow> num_domains f1 = 0"
  using assms
  by (auto simp: subdomain_count_def split: dart_locality_scope.splits option.splits)

lemma create_subdomains_unfold:
  assumes "create_subdomains topo (Domain_locality f ds) = Inr (DART_OK, t)"
  shows "\<exists>f1 ss. subdomain_count topo f = Inr (Some (f1, ss)) \<and> scalars t = f1 \<and>
           (case domains t of
              None \<Rightarrow> num_domains f1 \<le> 0
            | Some cs \<Rightarrow>
                0 < num_domains f1 \<and> int (length cs) = num_domains f1 \<and>
                (\<forall>k < length cs. \<exists>sub.
                    init_subdomain topo f1 ss (int k) = Inr sub \<and>
                    create_subdomains topo (Domain_locality sub None) = Inr (DART_OK, cs ! k)))"
proof -
  note run = assms [unfolded create_subdomains.simps [of topo f ds]]
  from run obtain f1 ss where cnt: "subdomain_count topo f = Inr (Some (f1, ss))"
    by (auto split: sum.splits option.splits)
  show ?thesis
  proof (cases "num_domains f1 = 0")
    case True
    with run cnt show ?thesis by auto
  next
    case False
    define g where "g = (\<lambda>rel_idx.
        case init_subdomain topo f1 ss rel_idx of
          Inl e \<Rightarrow> Inl e
        | Inr sub \<Rightarrow>
            (case create_subdomains topo (Domain_locality sub None) of
               Inl e \<Rightarrow> Inl e
             | Inr (r, subdomain) \<Rightarrow>
                 if r = DART_OK then Inr subdomain else Inl Assert_returns))"
    from run cnt False obtain cs where
      cs: "collect (map g [0..num_domains f1 - 1]) = Inr cs"
      and t: "t = Domain_locality f1 (if 0 < num_domains f1 then Some cs else None)"
      by (auto simp: g_def split: sum.splits)
    from collect_map_Inr [OF cs] have len: "length cs = nat (num_domains f1)"
      and each: "\<And>k. k < nat (num_domains f1) \<Longrightarrow> g ([0..num_domains f1 - 1] ! k) = Inr (cs ! k)"
      by simp_all
    have child: "\<exists>sub. init_subdomain topo f1 ss (int k) = Inr sub \<and>
        create_subdomains topo (Domain_locality sub None) = Inr (DART_OK, cs ! k)"
      if "k < nat (num_domains f1)" for k
    proof -
      from that have "[0..num_domains f1 - 1] ! k = int k"
        by (simp add: nth_upto)
      with each [OF that] have "g (int k) = Inr (cs ! k)" by simp
      then show ?thesis
        by (auto simp: g_def split: sum.splits if_splits)
    qed
    show ?thesis
    proof (cases "0 < num_domains f1")
      case True
      with cnt t len child show ?thesis by auto
    next
      case False
      with cnt t show ?thesis by auto
    qed
  qed
qed

lemma init_subdomain_common:
  assumes "init_subdomain topo f1 ss i = Inr sub"
  shows "scope sub = ss" "level sub = level f1 + 1" "relative_index sub = i"
    "domain_tag sub = (if level f1 > 0 then domain_tag f1 else []) @ CHR ''.'' # sprintf_d i"
    "num_domains sub = 0"
  using assms
  by (auto simp: init_subdomain_def create_global_subdomain_def create_node_subdomain_def
      create_module_subdomain_def create_numa_subdomain_def domain_locality_init_def Let_def
      split: dart_locality_scope.splits option.splits sum.splits if_splits)

lemma init_subdomain_module:
  assumes "init_subdomain topo f1 ss i = Inr sub" "scope f1 = DART_LOCALITY_SCOPE_MODULE"
  shows "num_cores (hwinfo sub) = num_units sub" "int (length (unit_ids sub)) = num_units sub"
  using assms
  by (auto simp: init_subdomain_def create_module_subdomain_def Let_def
      split: option.splits sum.splits)

lemma init_subdomain_numa:
  assumes "init_subdomain topo f1 ss i = Inr sub" "scope f1 = DART_LOCALITY_SCOPE_NUMA"
    and "num_domains f1 = num_units f1" "num_cores (hwinfo f1) = num_units f1"
    and "int (length (unit_ids f1)) = num_units f1" "0 \<le> i" "i < num_units f1"
  shows "num_units sub = 1" "num_modules (hwinfo sub) = 1" "num_numa (hwinfo sub) = 1"
    "num_cores (hwinfo sub) = 1" "unit_ids sub = [unit_ids f1 ! nat i]"
  using assms
  by (auto simp: init_subdomain_def create_numa_subdomain_def Let_def c_div_self upto.simps
      split: option.splits sum.splits if_splits)

lemma subdomain_at_child:
  "domains t = Some cs \<Longrightarrow> j < length cs \<Longrightarrow> subdomain_at t (j # path) = subdomain_at (cs ! j) path"
  by simp

lemma core_leaves_general:
  assumes "create_subdomains topo d = Inr (DART_OK, t)" "numa_counts (scalars d)"
    and "subdomain_at t (path @ [i]) = Some leaf"
    and "scope (scalars leaf) = DART_LOCALITY_SCOPE_CORE"
  shows "\<exists>parent. subdomain_at t path = Some parent \<and> relative_index (scalars leaf) = int i \<and>
           core_leaf parent leaf"
  using assms
proof (induction "scope_rank (scope (scalars d))" arbitrary: d t path rule: less_induct)
  case less
  obtain f ds where d: "d = Domain_locality f ds" by (cases d)
  from create_subdomains_unfold [OF less.prems(1) [unfolded d]] obtain f1 ss where
    cnt: "subdomain_count topo f = Inr (Some (f1, ss))" and t1: "scalars t = f1"
    and kids: "case domains t of
              None \<Rightarrow> num_domains f1 \<le> 0
            | Some cs \<Rightarrow>
                0 < num_domains f1 \<and> int (length cs) = num_domains f1 \<and>
                (\<forall>k < length cs. \<exists>sub.
                    init_subdomain topo f1 ss (int k) = Inr sub \<and>
                    create_subdomains topo (Domain_locality sub None) = Inr (DART_OK, cs ! k))"
    by blast
  note cf = subdomain_count_fields [OF cnt]
  from less.prems(3) obtain cs where cs: "domains t = Some cs"
    by (cases path; cases "domains t") auto
  with kids have pos: "0 < num_domains f1" and len: "int (length cs) = num_domains f1"
    and child: "\<And>k. k < length cs \<Longrightarrow> \<exists>sub.
                    init_subdomain topo f1 ss (int k) = Inr sub \<and>
                    create_subdomains topo (Domain_locality sub None) = Inr (DART_OK, cs ! k)"
    by auto
  show ?case
  proof (cases path)
    case Nil
    with less.prems(3) cs have i: "i < length cs" and leaf: "leaf = cs ! i"
      by (auto split: if_splits)
    from child [OF i] obtain sub where
      sub: "init_subdomain topo f1 ss (int i) = Inr sub"
      and run: "create_subdomains topo (Domain_locality sub None) = Inr (DART_OK, cs ! i)"
      by blast
    note ic = init_subdomain_common [OF sub]
    from create_subdomains_unfold [OF run] obtain g1 gs where
      cnt2: "subdomain_count topo sub = Inr (Some (g1, gs))" and leaf1: "scalars (cs ! i) = g1"
      by blast
    note cg = subdomain_count_fields [OF cnt2]
    from less.prems(4) leaf leaf1 cg(1) ic(1) have "ss = DART_LOCALITY_SCOPE_CORE" by simp
    with cf have numa: "scope f = DART_LOCALITY_SCOPE_NUMA" by simp
    with less.prems(2) d have counts: "num_cores (hwinfo f) = num_units f"
      "int (length (unit_ids f)) = num_units f"
      by (simp_all add: numa_counts_def)
    from numa cf have f1: "scope f1 = DART_LOCALITY_SCOPE_NUMA" "num_domains f1 = num_units f1"
      "num_cores (hwinfo f1) = num_units f1" "int (length (unit_ids f1)) = num_units f1"
      using counts by simp_all
    from i len f1 have range: "0 \<le> int i" "int i < num_units f1" by simp_all
    note nm = init_subdomain_numa [OF sub f1 range]
    from nm ic cg leaf leaf1 \<open>ss = DART_LOCALITY_SCOPE_CORE\<close> i len f1 t1
    have "core_leaf t leaf" "relative_index (scalars leaf) = int i"
      by (simp_all add: core_leaf_def)
    with Nil show ?thesis by simp
  next
    case (Cons j rest)
    with less.prems(3) cs have j: "j < length cs"
      and below: "subdomain_at (cs ! j) (rest @ [i]) = Some leaf"
      by (auto split: if_splits)
    from child [OF j] obtain sub where
      sub: "init_subdomain topo f1 ss (int j) = Inr sub"
      and run: "create_subdomains topo (Domain_locality sub None) = Inr (DART_OK, cs ! j)"
      by blast
    note ic = init_subdomain_common [OF sub]
    have rank: "scope_rank (scope (scalars (Domain_locality sub None))) < scope_rank (scope (scalars d))"
      using subdomain_count_rank [OF cnt] pos ic(1) d by simp
    have pre: "numa_counts (scalars (Domain_locality sub None))"
    proof (cases "ss = DART_LOCALITY_SCOPE_NUMA")
      case True
      with cf have "scope f1 = DART_LOCALITY_SCOPE_MODULE" by simp
      from init_subdomain_module [OF sub this] show ?thesis
        by (simp add: numa_counts_def)
    next
      case False
      with ic(1) show ?thesis by (simp add: numa_counts_def)
    qed
    from less.hyps [OF rank run pre below less.prems(4)] obtain parent where
      "subdomain_at (cs ! j) rest = Some parent" "relative_index (scalars leaf) = int i"
      "core_leaf parent leaf"
      by blast
    with Cons cs j show ?thesis by simp
  qed
qed

lemma create_subdomains_ok:
  assumes "create_subdomains topo d = Inr (r, t)"
    and "scope (scalars d) \<noteq> DART_LOCALITY_SCOPE_UNDEFINED"
  shows "r = DART_OK"
proof -
  obtain f ds where d: "d = Domain_locality f ds" by (cases d)
  from assms(2) d have "subdomain_count topo f \<noteq> Inr None"
    by (auto simp: subdomain_count_def split: dart_locality_scope.splits option.splits)
  with assms(1) [unfolded d create_subdomains.simps [of topo f ds]] show ?thesis
    by (auto split: sum.splits option.splits if_splits)
qed

lemma tree8_built: "create_subdomains topo8 (locality_root hw8 ''h1'' 8 2 1) = Inr (DART_OK, tree8)"
proof -
  have "case create_subdomains topo8 (locality_root hw8 ''h1'' 8 2 1) of
          Inr (r, t) \<Rightarrow> r = DART_OK | Inl e \<Rightarrow> False"
    by code_simp
  then show ?thesis
    by (auto simp: tree8_def split: sum.splits)
qed

lemma tree8_leaf:
  "map_option (\<lambda>d. (scope (scalars d), domain_tag (scalars d), unit_ids (scalars d)))
     (subdomain_at tree8 [1, 0, 1, 0])
   = Some (DART_LOCALITY_SCOPE_CORE, ''.1.0.1.0'', [1])"
  unfolding tree8_def by code_simp

text \<open>
  C4. In the tree that \<open>create_subdomains\<close> builds from a root of GLOBAL scope, every domain
  of CORE scope has one unit, and one module, one NUMA domain and one core in its hardware
  information; it is the sub-domain of some parent at its relative index, and its unit list
  is the single unit that the parent's unit list holds at that index.
\<close>

theorem core_leaves:
  assumes "create_subdomains topo root = Inr (r, tree)"
    and "scope (scalars root) = DART_LOCALITY_SCOPE_GLOBAL"
    and "subdomain_at tree p = Some leaf"
    and "scope (scalars leaf) = DART_LOCALITY_SCOPE_CORE"
  shows "num_units (scalars leaf) = 1 \<and> num_modules (hwinfo (scalars leaf)) = 1 \<and>
    num_numa (hwinfo (scalars leaf)) = 1 \<and> num_cores (hwinfo (scalars leaf)) = 1 \<and>
    (\<exists>q i parent. p = q @ [i] \<and> subdomain_at tree q = Some parent \<and>
        relative_index (scalars leaf) = int i \<and> i < length (unit_ids (scalars parent)) \<and>
        unit_ids (scalars leaf) = [unit_ids (scalars parent) ! i])"
proof -
  from assms(1,2) have ok: "create_subdomains topo root = Inr (DART_OK, tree)"
    using create_subdomains_ok [of topo root r tree] by simp
  obtain f ds where root: "root = Domain_locality f ds" by (cases root)
  from create_subdomains_unfold [OF ok [unfolded root]] obtain f1 ss where
    "subdomain_count topo f = Inr (Some (f1, ss))" "scalars tree = f1"
    by blast
  with assms(2) root have "scope (scalars tree) = DART_LOCALITY_SCOPE_GLOBAL"
    by (simp add: subdomain_count_fields(1))
  with assms(3,4) have "p \<noteq> []" by auto
  then obtain q i where p: "p = q @ [i]"
    by (cases p rule: rev_cases) auto
  have pre: "numa_counts (scalars root)"
    using assms(2) by (simp add: numa_counts_def)
  from core_leaves_general [OF ok pre assms(3) [unfolded p] assms(4)] obtain parent where
    "subdomain_at tree q = Some parent" "relative_index (scalars leaf) = int i"
    "core_leaf parent leaf"
    by blast
  with p show ?thesis
    by (auto simp: core_leaf_def)
qed

theorem core_leaves_witness:
  "create_subdomains topo8 (locality_root hw8 ''h1'' 8 2 1) = Inr (DART_OK, tree8) \<and>
   (\<exists>leaf. subdomain_at tree8 [1, 0, 1, 0] = Some leaf \<and>
      scope (scalars leaf) = DART_LOCALITY_SCOPE_CORE \<and>
      num_units (scalars leaf) = 1 \<and> num_modules (hwinfo (scalars leaf)) = 1 \<and>
      num_numa (hwinfo (scalars leaf)) = 1 \<and> num_cores (hwinfo (scalars leaf)) = 1 \<and>
      (\<exists>q i parent. [1, 0, 1, 0] = q @ [i] \<and> subdomain_at tree8 q = Some parent \<and>
          relative_index (scalars leaf) = int i \<and> i < length (unit_ids (scalars parent)) \<and>
          unit_ids (scalars leaf) = [unit_ids (scalars parent) ! i]))"
proof -
  from tree8_leaf obtain leaf where
    leaf: "subdomain_at tree8 [1, 0, 1, 0] = Some leaf"
    and core: "scope (scalars leaf) = DART_LOCALITY_SCOPE_CORE"
    by auto
  have "scope (scalars (locality_root hw8 ''h1'' 8 2 1)) = DART_LOCALITY_SCOPE_GLOBAL"
    by (simp add: locality_root_def)
  from core_leaves [OF tree8_built this leaf core] tree8_built leaf core show ?thesis
    by blast
qed

subsection \<open>Looking up a domain by its own tag\<close>

lemma digit_char_props:
  assumes "k < 10"
  shows "isdigit (digit_char k)" "digit_val (digit_char k) = int k"
    "\<not> isspace (digit_char k)" "digit_char k \<noteq> CHR ''-''" "digit_char k \<noteq> CHR ''+''"
    "digit_char k \<noteq> CHR ''.''"
proof -
  have code: "of_char (digit_char k) = 48 + k"
    using assms by (simp add: digit_char_def)
  show "isdigit (digit_char k)" "digit_val (digit_char k) = int k"
    using assms by (simp_all add: isdigit_def digit_val_def code)
  have neq: "digit_char k \<noteq> c" if "(of_char c :: nat) < 48" for c
    using that code by (metis not_add_less1)
  show "\<not> isspace (digit_char k)"
    using neq by (auto simp: isspace_def)
  show "digit_char k \<noteq> CHR ''-''" "digit_char k \<noteq> CHR ''+''" "digit_char k \<noteq> CHR ''.''"
    by (rule neq, simp)+
qed

lemma dec_shape: "\<exists>k ds. k < 10 \<and> dec n = digit_char k # ds"
proof (induction n rule: dec.induct)
  case (1 n)
  show ?case
  proof (cases "n < 10")
    case True
    then show ?thesis by (subst dec.simps) auto
  next
    case False
    with "1.IH" obtain k ds where "k < 10" "dec (n div 10) = digit_char k # ds" by blast
    with False show ?thesis by (subst dec.simps) auto
  qed
qed

lemma dec_digits: "c \<in> set (dec n) \<Longrightarrow> isdigit c"
proof (induction n rule: dec.induct)
  case (1 n)
  show ?case
  proof (cases "n < 10")
    case True
    with "1.prems" show ?thesis
      by (subst (asm) dec.simps) (auto simp: digit_char_props)
  next
    case False
    with "1.prems" "1.IH" show ?thesis
      by (subst (asm) dec.simps) (auto simp: digit_char_props)
  qed
qed

lemma dec_value: "foldl (\<lambda>a c. 10 * a + digit_val c) 0 (dec n) = int n"
proof (induction n rule: dec.induct)
  case (1 n)
  show ?case
  proof (cases "n < 10")
    case True
    then show ?thesis by (subst dec.simps) (simp add: digit_char_props)
  next
    case False
    with "1.IH" have "foldl (\<lambda>a c. 10 * a + digit_val c) 0 (dec (n div 10)) = int (n div 10)"
      by simp
    with False show ?thesis
      by (subst dec.simps) (simp add: digit_char_props zdiv_int zmod_int)
  qed
qed

lemma strtol10_dec:
  assumes "int n \<le> LONG_MAX" "rest = [] \<or> \<not> isdigit (hd rest)"
  shows "strtol10 (dec n @ rest) = (int n, rest)"
proof -
  obtain k ds where k: "k < 10" and shape: "dec n = digit_char k # ds"
    using dec_shape by blast
  have front: "dropWhile isspace (dec n @ rest) = dec n @ rest"
    by (simp add: shape digit_char_props [OF k])
  have run: "takeWhile isdigit (dec n @ rest) = dec n"
    using assms(2) dec_digits [of _ n]
    by (cases rest) (auto simp: takeWhile_append2 [of "dec n" isdigit])
  have after: "dropWhile isdigit (dec n @ rest) = rest"
    using assms(2) dec_digits [of _ n]
    by (cases rest) (auto simp: dropWhile_append2 [of "dec n" isdigit])
  have "0 \<le> int n" by simp
  then have clamp: "max LONG_MIN (min LONG_MAX (int n)) = int n"
    using assms(1) by (simp add: LONG_MIN_def)
  have sign: "(case dec n @ rest of
                 [] \<Rightarrow> (False, dec n @ rest)
               | c # r \<Rightarrow> if c = CHR ''-'' then (True, r)
                          else if c = CHR ''+'' then (False, r) else (False, dec n @ rest))
              = (False, dec n @ rest)"
    by (simp add: shape digit_char_props [OF k])
  have ne: "dec n \<noteq> []"
    using shape by simp
  show ?thesis
    by (simp only: strtol10_def Let_def front sign prod.case run after ne if_False dec_value clamp)
qed

lemma subdomain_count_counts_fit:
  assumes "subdomain_count topo f = Inr (Some (f1, ss))" "counts_fit topo f"
  shows "counts_fit topo f1" "num_domains f1 \<le> INT_MAX"
  using assms
  by (auto simp: subdomain_count_def counts_fit_def INT_MAX_def
      split: dart_locality_scope.splits option.splits)

lemma create_module_subdomain_units:
  assumes "create_module_subdomain topo f1 s0 i = Inr (r, sub)"
  shows "\<exists>us. module_units topo (host f1) = Some us \<and> num_units sub \<le> int (length us)"
proof -
  from assms obtain us where us: "module_units topo (host f1) = Some us"
    by (auto simp: create_module_subdomain_def Let_def split: option.splits)
  with assms obtain pairs where
    pairs: "collect (map (\<lambda>u. case unit_numa_id topo u of
                                  None \<Rightarrow> Inl Unset_output
                                | Some n \<Rightarrow> Inr (u, n)) us) = Inr pairs"
    and n: "num_units sub = int (length (filter (\<lambda>(u, n). n = i) pairs))"
    by (auto simp: create_module_subdomain_def Let_def split: sum.splits)
  from collect_map_Inr [OF pairs] have "length pairs = length us" by simp
  moreover have "length (filter (\<lambda>(u, n). n = i) pairs) \<le> length pairs" by simp
  ultimately show ?thesis using us n by auto
qed

lemma init_subdomain_counts_fit:
  assumes "init_subdomain topo f1 ss i = Inr sub" "counts_fit topo f1"
    and "ss = DART_LOCALITY_SCOPE_NUMA \<Longrightarrow> scope f1 = DART_LOCALITY_SCOPE_MODULE"
  shows "counts_fit topo sub"
proof (cases "scope f1")
  case DART_LOCALITY_SCOPE_MODULE
  with assms(1) obtain r s0 where m: "create_module_subdomain topo f1 s0 i = Inr (r, sub)"
    by (cases "create_module_subdomain topo f1
          ((domain_locality_init malloc_domain)
             \<lparr>hwinfo := hwinfo f1, scope := ss, relative_index := i, level := level f1 + 1,
              node_id := node_id f1, host := host f1,
              domain_tag := (if level f1 > 0 then domain_tag f1 else []) @ CHR ''.'' # sprintf_d i\<rparr>) i")
       (auto simp: init_subdomain_def Let_def)
  from create_module_subdomain_units [OF m] assms(2) have "num_units sub \<le> INT_MAX"
    by (fastforce simp: counts_fit_def)
  moreover from m assms(2) have "num_modules (hwinfo sub) \<le> INT_MAX" "num_numa (hwinfo sub) \<le> INT_MAX"
    by (auto simp: create_module_subdomain_def Let_def INT_MAX_def split: option.splits sum.splits)
  ultimately show ?thesis
    using assms(2) by (simp add: counts_fit_def)
next
  case DART_LOCALITY_SCOPE_NUMA
  with assms show ?thesis
    by (auto simp: init_subdomain_def create_numa_subdomain_def counts_fit_def Let_def INT_MAX_def
        domain_locality_init_def split: option.splits sum.splits if_splits)
next
  case DART_LOCALITY_SCOPE_GLOBAL
  with assms show ?thesis
    by (auto simp: init_subdomain_def create_global_subdomain_def counts_fit_def Let_def
        domain_locality_init_def split: option.splits)
next
  case DART_LOCALITY_SCOPE_NODE
  with assms show ?thesis
    by (auto simp: init_subdomain_def create_node_subdomain_def counts_fit_def Let_def
        domain_locality_init_def split: option.splits)
next
  case DART_LOCALITY_SCOPE_CORE
  with assms show ?thesis
    by (auto simp: init_subdomain_def counts_fit_def Let_def INT_MAX_def
        domain_locality_init_def split: if_splits)
next
  case DART_LOCALITY_SCOPE_UNDEFINED
  with assms show ?thesis
    by (auto simp: init_subdomain_def counts_fit_def Let_def domain_locality_init_def)
qed

lemma sprintf_d_nat: "sprintf_d (int k) = dec k"
  by (simp add: sprintf_d_def)

lemma child_links_general:
  assumes "create_subdomains topo d = Inr (DART_OK, t)" "counts_fit topo (scalars d)"
    and "subdomain_at t (path @ [i]) = Some c"
  shows "\<exists>parent. subdomain_at t path = Some parent \<and> child_link parent i c"
  using assms
proof (induction "scope_rank (scope (scalars d))" arbitrary: d t path rule: less_induct)
  case less
  obtain f ds where d: "d = Domain_locality f ds" by (cases d)
  from create_subdomains_unfold [OF less.prems(1) [unfolded d]] obtain f1 ss where
    cnt: "subdomain_count topo f = Inr (Some (f1, ss))" and t1: "scalars t = f1"
    and kids: "case domains t of
              None \<Rightarrow> num_domains f1 \<le> 0
            | Some cs \<Rightarrow>
                0 < num_domains f1 \<and> int (length cs) = num_domains f1 \<and>
                (\<forall>k < length cs. \<exists>sub.
                    init_subdomain topo f1 ss (int k) = Inr sub \<and>
                    create_subdomains topo (Domain_locality sub None) = Inr (DART_OK, cs ! k))"
    by blast
  note cf = subdomain_count_fields [OF cnt]
  from less.prems(2) d have fit: "counts_fit topo f" by simp
  note fit1 = subdomain_count_counts_fit [OF cnt fit]
  from less.prems(3) obtain cs where cs: "domains t = Some cs"
    by (cases path; cases "domains t") auto
  with kids have pos: "0 < num_domains f1" and len: "int (length cs) = num_domains f1"
    and child: "\<And>k. k < length cs \<Longrightarrow> \<exists>sub.
                    init_subdomain topo f1 ss (int k) = Inr sub \<and>
                    create_subdomains topo (Domain_locality sub None) = Inr (DART_OK, cs ! k)"
    by auto
  have link: "ss = DART_LOCALITY_SCOPE_NUMA \<Longrightarrow> scope f1 = DART_LOCALITY_SCOPE_MODULE"
    using cf by simp
  show ?case
  proof (cases path)
    case Nil
    with less.prems(3) cs have i: "i < length cs" and c: "c = cs ! i"
      by (auto split: if_splits)
    from child [OF i] obtain sub where
      sub: "init_subdomain topo f1 ss (int i) = Inr sub"
      and run: "create_subdomains topo (Domain_locality sub None) = Inr (DART_OK, cs ! i)"
      by blast
    note ic = init_subdomain_common [OF sub]
    from create_subdomains_unfold [OF run] obtain g1 gs where
      cnt2: "subdomain_count topo sub = Inr (Some (g1, gs))" and c1: "scalars (cs ! i) = g1"
      by blast
    note cg = subdomain_count_fields [OF cnt2]
    have "child_link t i c"
      unfolding child_link_def
      using cs i c c1 cg(2,3) ic(2,4) t1 len fit1(2)
      by (simp add: sprintf_d_nat)
    with Nil show ?thesis by simp
  next
    case (Cons j rest)
    with less.prems(3) cs have j: "j < length cs"
      and below: "subdomain_at (cs ! j) (rest @ [i]) = Some c"
      by (auto split: if_splits)
    from child [OF j] obtain sub where
      sub: "init_subdomain topo f1 ss (int j) = Inr sub"
      and run: "create_subdomains topo (Domain_locality sub None) = Inr (DART_OK, cs ! j)"
      by blast
    note ic = init_subdomain_common [OF sub]
    have rank: "scope_rank (scope (scalars (Domain_locality sub None))) < scope_rank (scope (scalars d))"
      using subdomain_count_rank [OF cnt] pos ic(1) d by simp
    have pre: "counts_fit topo (scalars (Domain_locality sub None))"
      using init_subdomain_counts_fit [OF sub fit1(1) link] by simp
    from less.hyps [OF rank run pre below] obtain parent where
      "subdomain_at (cs ! j) rest = Some parent" "child_link parent i c"
      by blast
    with Cons cs j show ?thesis by simp
  qed
qed

lemma subdomain_at_append:
  "subdomain_at t (p @ q) = (case subdomain_at t p of None \<Rightarrow> None | Some d \<Rightarrow> subdomain_at d q)"
  by (induction p arbitrary: t) (auto split: option.splits)

lemma tag_of_path:
  assumes links: "\<And>q i c. subdomain_at t (q @ [i]) = Some c \<Longrightarrow>
                    \<exists>parent. subdomain_at t q = Some parent \<and> child_link parent i c"
    and root: "level (scalars t) = 0"
    and at: "subdomain_at t p = Some d"
  shows "level (scalars d) = int (length p) \<and> (p \<noteq> [] \<longrightarrow> domain_tag (scalars d) = path_tag p)"
  using at
proof (induction p arbitrary: d rule: rev_induct)
  case Nil
  with root show ?case by simp
next
  case (snoc i q)
  from links [OF snoc.prems] obtain parent where
    parent: "subdomain_at t q = Some parent" and link: "child_link parent i d"
    by blast
  from snoc.IH [OF parent] have lev: "level (scalars parent) = int (length q)"
    and tag: "q \<noteq> [] \<Longrightarrow> domain_tag (scalars parent) = path_tag q"
    by simp_all
  from link lev tag show ?case
    by (cases "q = []") (auto simp: child_link_def path_tag_def)
qed

lemma long_to_int_small: "0 \<le> x \<Longrightarrow> x \<le> INT_MAX \<Longrightarrow> long_to_int x = x"
  unfolding long_to_int_def INT_MAX_def
  by (simp add: sint_sbintrunc' signed_take_bit_int_eq_self)

lemma path_tag_front: "path_tag p = [] \<or> \<not> isdigit (hd (path_tag p))"
  by (cases p) (simp_all add: path_tag_def isdigit_def)

lemma lookup_descends:
  assumes links: "\<And>q i c. subdomain_at t (q @ [i]) = Some c \<Longrightarrow>
                    \<exists>parent. subdomain_at t q = Some parent \<and> child_link parent i c"
    and at: "subdomain_at t (q @ p) = Some d"
  shows "locality_domain_loop t (Ptr_domain q) (path_tag p) = Inr (DART_OK, Some (Ptr_domain (q @ p)))"
  using at
proof (induction p arbitrary: q)
  case Nil
  show ?case
    by (subst locality_domain_loop.simps) (simp add: path_tag_def)
next
  case (Cons i p)
  from Cons.prems have "subdomain_at t ((q @ [i]) @ p) = Some d" by simp
  then obtain c where c: "subdomain_at t (q @ [i]) = Some c"
    unfolding subdomain_at_append [of t "q @ [i]" p]
    by (cases "subdomain_at t (q @ [i])") auto
  from links [OF c] obtain parent cs where
    parent: "subdomain_at t q = Some parent" and cs: "domains parent = Some cs" "i < length cs"
    "num_domains (scalars parent) = int (length cs)" "int (length cs) \<le> INT_MAX"
    by (auto simp: child_link_def)
  have small: "int i \<le> INT_MAX" using cs by simp
  then have "int i \<le> LONG_MAX" by (simp add: INT_MAX_def LONG_MAX_def)
  from strtol10_dec [OF this path_tag_front]
  have parse: "strtol10 (dec i @ path_tag p) = (int i, path_tag p)" .
  have idx: "long_to_int (int i) = int i"
    using small by (simp add: long_to_int_small)
  have ne: "dec i \<noteq> []"
    using dec_shape [of i] by auto
  have step: "locality_domain_loop t (Ptr_domain q) (path_tag (i # p)) =
      locality_domain_loop t (Ptr_domain (q @ [i])) (path_tag p)"
    by (subst locality_domain_loop.simps)
      (use ne cs parent in \<open>simp add: path_tag_def [of "i # p"] path_tag_def [symmetric] parse idx
         subdomain_ptr_def\<close>)
  from Cons.IH [of "q @ [i]"] Cons.prems step show ?case by simp
qed

text \<open>
  C5. Let the tree be built by \<open>create_subdomains\<close> from a root of GLOBAL scope at level 0
  with the tag \<open>.\<close>, the counts that become numbers of sub-domains fitting a C \<open>int\<close>. For
  every domain \<open>d\<close> of the tree, the root included, the lookup of the tag of \<open>d\<close> returns
  \<open>DART_OK\<close> and the pointer to \<open>d\<close>, that is, the path at which \<open>d\<close> sits.
\<close>

theorem lookup_own_tag:
  assumes "create_subdomains topo root = Inr (r, tree)"
    and "scope (scalars root) = DART_LOCALITY_SCOPE_GLOBAL"
    and "level (scalars root) = 0" "domain_tag (scalars root) = ''.''"
    and "topology_num_nodes topo \<le> INT_MAX" "num_modules (hwinfo (scalars root)) \<le> INT_MAX"
      "num_numa (hwinfo (scalars root)) \<le> INT_MAX"
    and "\<And>h us. module_units topo h = Some us \<Longrightarrow> int (length us) \<le> INT_MAX"
    and "subdomain_at tree p = Some d"
  shows "dart_base_locality_domain tree (domain_tag (scalars d)) = Inr (DART_OK, Some (Ptr_domain p))"
proof -
  from assms(1,2) have ok: "create_subdomains topo root = Inr (DART_OK, tree)"
    using create_subdomains_ok [of topo root r tree] by simp
  obtain f ds where root: "root = Domain_locality f ds" by (cases root)
  from create_subdomains_unfold [OF ok [unfolded root]] obtain f1 ss where
    cnt: "subdomain_count topo f = Inr (Some (f1, ss))" and top: "scalars tree = f1"
    by blast
  note cf = subdomain_count_fields [OF cnt]
  from cf top assms(3,4) root have lev: "level (scalars tree) = 0"
    and dot: "domain_tag (scalars tree) = ''.''"
    by simp_all
  have fit: "counts_fit topo (scalars root)"
    using assms(2,5,6,7,8) by (auto simp: counts_fit_def)
  have links: "\<exists>parent. subdomain_at tree q = Some parent \<and> child_link parent i c"
    if "subdomain_at tree (q @ [i]) = Some c" for q i c
    using child_links_general [OF ok fit that] .
  show ?thesis
  proof (cases "p = []")
    case True
    with assms(9) dot have "domain_tag (scalars d) = ''.''" by simp
    with True show ?thesis
      by (simp add: dart_base_locality_domain_def strchr_def locality_domain_loop.simps)
  next
    case False
    with tag_of_path [OF links lev assms(9)] have tag: "domain_tag (scalars d) = path_tag p"
      by simp
    from False obtain i rest where p: "p = i # rest" by (cases p) auto
    have front: "strchr (path_tag p) CHR ''.'' = Some (path_tag p)"
      by (simp add: p path_tag_def strchr_def)
    from lookup_descends [OF links, of "[]" p d] assms(9)
    have "locality_domain_loop tree (Ptr_domain []) (path_tag p) = Inr (DART_OK, Some (Ptr_domain p))"
      by simp
    with tag front show ?thesis
      by (simp add: dart_base_locality_domain_def)
  qed
qed

theorem lookup_own_tag_witness:
  "create_subdomains topo8 (locality_root hw8 ''h1'' 8 2 1) = Inr (DART_OK, tree8) \<and>
   (\<exists>d. subdomain_at tree8 [1, 0, 1, 0] = Some d \<and> domain_tag (scalars d) = ''.1.0.1.0'') \<and>
   dart_base_locality_domain tree8 ''.1.0.1.0'' = Inr (DART_OK, Some (Ptr_domain [1, 0, 1, 0]))"
proof -
  from tree8_leaf obtain d where
    d: "subdomain_at tree8 [1, 0, 1, 0] = Some d"
    and tag: "domain_tag (scalars d) = ''.1.0.1.0''"
    by auto
  have units: "int (length us) \<le> INT_MAX" if "module_units topo8 h = Some us" for h us
    using that by (auto simp: topo8_def INT_MAX_def split: if_splits)
  have "dart_base_locality_domain tree8 (domain_tag (scalars d)) =
      Inr (DART_OK, Some (Ptr_domain [1, 0, 1, 0]))"
    by (rule lookup_own_tag [OF tree8_built _ _ _ _ _ _ units d])
      (simp_all add: locality_root_def topo8_def hw8_def INT_MAX_def)
  with tree8_built d tag show ?thesis
    by auto
qed

end
